theory Spec2Isabelle
  imports Main "HOL-Library.Sublist"
begin

section \<open>Strings and Python helpers\<close>

text \<open>
  The generator \<^verbatim>\<open>tools/autogen.py\<close> reads C declarations as a pycparser tree and
  writes four text files. Strings are byte lists; the two characters that cannot be
  written inside a literal are named here.
\<close>

definition NL :: string where
  "NL = [CHR 0x0A]"

definition SQ :: string where
  "SQ = [CHR 0x27]"

text \<open>\<^verbatim>\<open>sep.join(xs)\<close> on a list of strings.\<close>

fun join :: "string \<Rightarrow> string list \<Rightarrow> string" where
  "join sep [] = []"
| "join sep [x] = x"
| "join sep (x # y # ys) = x @ sep @ join sep (y # ys)"

text \<open>\<^verbatim>\<open>s.startswith(p)\<close>.\<close>

definition startswith :: "string \<Rightarrow> string \<Rightarrow> bool" where
  "startswith s p = (take (length p) s = p)"

text \<open>
  \<^verbatim>\<open>s.upper()\<close> on the ASCII letters; C identifiers, the only strings it is applied to,
  contain no other cased characters.
\<close>

definition upper_char :: "char \<Rightarrow> char" where
  "upper_char c =
     (case map_of (zip ''abcdefghijklmnopqrstuvwxyz'' ''ABCDEFGHIJKLMNOPQRSTUVWXYZ'') c of
        None \<Rightarrow> c
      | Some u \<Rightarrow> u)"

definition upper :: "string \<Rightarrow> string" where
  "upper s = map upper_char s"

text \<open>The exceptions the generator can end with.\<close>

datatype error =
    ValueError string
  | AssertionError
  | AttributeError
  | IndexError
  | TypeError
  | ParseError

text \<open>\<^verbatim>\<open>xs[i]\<close> with Python's negative indices; out of range raises.\<close>

definition py_index :: "'a list \<Rightarrow> int \<Rightarrow> error + 'a" where
  "py_index xs i =
     (if 0 \<le> i \<and> i < int (length xs) then Inr (xs ! nat i)
      else if i < 0 \<and> - int (length xs) \<le> i then Inr (xs ! nat (int (length xs) + i))
      else Inl IndexError)"

text \<open>\<^verbatim>\<open>'%s' % x\<close> and \<^verbatim>\<open>str(x)\<close> where \<^verbatim>\<open>x\<close> is a string or \<^verbatim>\<open>None\<close>.\<close>

definition py_str :: "string option \<Rightarrow> string" where
  "py_str x = (case x of None \<Rightarrow> ''None'' | Some s \<Rightarrow> s)"

text \<open>\<^verbatim>\<open>', '.join(params)\<close>: an item that is \<^verbatim>\<open>None\<close> raises TypeError.\<close>

definition join_names :: "string option list \<Rightarrow> error + string" where
  "join_names xs =
     (case those xs of None \<Rightarrow> Inl TypeError | Some ss \<Rightarrow> Inr (join '', '' ss))"

section \<open>The declaration tree\<close>

text \<open>
  The classes of \<^verbatim>\<open>pycparser.c_ast\<close> that declarations are made of, as one untyped
  node type, the way Python sees them. A \<^verbatim>\<open>ParamList\<close> is the list under
  \<^verbatim>\<open>FuncDecl.args\<close>, which is \<^verbatim>\<open>None\<close> for empty parentheses. Initialisers,
  bit sizes and array dimensions are opaque text.
\<close>

datatype node =
    FileAST (ext: "node list")
  | is_Decl: Decl (decl_name: "string option") (decl_quals: "string list")
      (decl_storage: "string list") (decl_funcspec: "string list") (decl_type: node)
      (decl_init: "string option") (decl_bitsize: "string option")
  | Typename (tn_name: "string option") (tn_quals: "string list") (tn_type: node)
  | TypeDecl (declname: "string option") (td_quals: "string list") (td_type: node)
  | PtrDecl (ptr_quals: "string list") (ptr_type: node)
  | ArrayDecl (arr_type: node) (arr_dim: "string option")
  | FuncDecl (args: "node list option") (fn_type: node)
  | IdentifierType (names: "string list")
  | EllipsisParam

text \<open>Attribute reads: a class without the attribute raises AttributeError.\<close>

fun attr_type :: "node \<Rightarrow> error + node" where
  "attr_type (Decl nm q st fs t i b) = Inr t"
| "attr_type (Typename nm q t) = Inr t"
| "attr_type (TypeDecl dn q t) = Inr t"
| "attr_type (PtrDecl q t) = Inr t"
| "attr_type (ArrayDecl t d) = Inr t"
| "attr_type (FuncDecl a t) = Inr t"
| "attr_type (FileAST xs) = Inl AttributeError"
| "attr_type (IdentifierType ns) = Inl AttributeError"
| "attr_type EllipsisParam = Inl AttributeError"

fun attr_name :: "node \<Rightarrow> error + string option" where
  "attr_name (Decl nm q st fs t i b) = Inr nm"
| "attr_name (Typename nm q t) = Inr nm"
| "attr_name (FileAST xs) = Inl AttributeError"
| "attr_name (TypeDecl dn q t) = Inl AttributeError"
| "attr_name (PtrDecl q t) = Inl AttributeError"
| "attr_name (ArrayDecl t d) = Inl AttributeError"
| "attr_name (FuncDecl a t) = Inl AttributeError"
| "attr_name (IdentifierType ns) = Inl AttributeError"
| "attr_name EllipsisParam = Inl AttributeError"

text \<open>\<^verbatim>\<open>hasattr(p, 'name')\<close>.\<close>

definition hasattr_name :: "node \<Rightarrow> bool" where
  "hasattr_name p = (case attr_name p of Inl e \<Rightarrow> False | Inr nm \<Rightarrow> True)"

text \<open>\<^verbatim>\<open>n.args.params\<close>: only a \<^verbatim>\<open>FuncDecl\<close> has \<^verbatim>\<open>args\<close>, and \<^verbatim>\<open>None\<close> has no \<^verbatim>\<open>params\<close>.\<close>

fun attr_args_params :: "node \<Rightarrow> error + node list" where
  "attr_args_params (FuncDecl (Some ps) t) = Inr ps"
| "attr_args_params (FuncDecl None t) = Inl AttributeError"
| "attr_args_params (FileAST xs) = Inl AttributeError"
| "attr_args_params (Decl nm q st fs t i b) = Inl AttributeError"
| "attr_args_params (Typename nm q t) = Inl AttributeError"
| "attr_args_params (TypeDecl dn q t) = Inl AttributeError"
| "attr_args_params (PtrDecl q t) = Inl AttributeError"
| "attr_args_params (ArrayDecl t d) = Inl AttributeError"
| "attr_args_params (IdentifierType ns) = Inl AttributeError"
| "attr_args_params EllipsisParam = Inl AttributeError"

text \<open>\<^verbatim>\<open>self.node.type.args.params\<close>.\<close>

definition node_params :: "node \<Rightarrow> error + node list" where
  "node_params n = (case attr_type n of Inl e \<Rightarrow> Inl e | Inr t \<Rightarrow> attr_args_params t)"

text \<open>\<^verbatim>\<open>[p.name for p in ps]\<close>.\<close>

fun param_names :: "node list \<Rightarrow> error + string option list" where
  "param_names [] = Inr []"
| "param_names (p # ps) =
     (case attr_name p of
        Inl e \<Rightarrow> Inl e
      | Inr nm \<Rightarrow> (case param_names ps of Inl e \<Rightarrow> Inl e | Inr nms \<Rightarrow> Inr (nm # nms)))"

text \<open>Assignment to the \<^verbatim>\<open>type\<close> attribute of a node that has one.\<close>

fun with_type :: "node \<Rightarrow> node \<Rightarrow> node" where
  "with_type (Decl nm q st fs t i b) t' = Decl nm q st fs t' i b"
| "with_type (Typename nm q t) t' = Typename nm q t'"
| "with_type (TypeDecl dn q t) t' = TypeDecl dn q t'"
| "with_type (PtrDecl q t) t' = PtrDecl q t'"
| "with_type (ArrayDecl t d) t' = ArrayDecl t' d"
| "with_type (FuncDecl a t) t' = FuncDecl a t'"
| "with_type (FileAST xs) t' = FileAST xs"
| "with_type (IdentifierType ns) t' = IdentifierType ns"
| "with_type EllipsisParam t' = EllipsisParam"

section \<open>Entries: \<^verbatim>\<open>Function\<close> and \<^verbatim>\<open>GlobalVar\<close>\<close>

text \<open>
  The two classes share their method names; each method below dispatches on the class.
  Both carry the declared name and the declaration node.
\<close>

datatype entry = is_Function: Function string node | GlobalVar string node

fun entry_name :: "entry \<Rightarrow> string" where
  "entry_name (Function name n) = name"
| "entry_name (GlobalVar name n) = name"

fun entry_node :: "entry \<Rightarrow> node" where
  "entry_node (Function name n) = n"
| "entry_node (GlobalVar name n) = n"

text \<open>
  \<^verbatim>\<open>_CTX_NAME = re.compile(r'^_?HPy_?')\<close>: the length of the match at the start of the
  string, if there is one. After a leading underscore the text \<^verbatim>\<open>HPy\<close> must follow;
  backtracking to an empty \<^verbatim>\<open>_?\<close> cannot help, the string then starts with an underscore.
\<close>

definition CTX_NAME_match :: "string \<Rightarrow> nat option" where
  "CTX_NAME_match s =
     (let u = (if startswith s ''_'' then 1 else 0); r = drop u s
      in if startswith r ''HPy''
         then Some (u + 3 + (if startswith (drop 3 r) ''_'' then 1 else 0))
         else None)"

text \<open>
  \<^verbatim>\<open>_CTX_NAME.sub(r'ctx_', name)\<close>: the pattern is anchored, so at most the match at the
  start is replaced.
\<close>

definition CTX_NAME_sub :: "string \<Rightarrow> string" where
  "CTX_NAME_sub name =
     (case CTX_NAME_match name of None \<Rightarrow> name | Some k \<Rightarrow> ''ctx_'' @ drop k name)"

fun ctx_name :: "entry \<Rightarrow> string" where
  "ctx_name (Function name n) = CTX_NAME_sub name"
| "ctx_name (GlobalVar name n) = name"

fun ctx_impl_name :: "entry \<Rightarrow> string" where
  "ctx_impl_name (Function name n) = ''&'' @ ctx_name (Function name n)"
| "ctx_impl_name (GlobalVar name n) = ''(HPy){CONSTANT_'' @ upper name @ ''}''"

fun ctx_pypy_type :: "entry \<Rightarrow> string" where
  "ctx_pypy_type (Function name n) = ''rffi.VOIDP''"
| "ctx_pypy_type (GlobalVar name n) = ''HPy''"

text \<open>\<^verbatim>\<open>Function.is_varargs\<close>, on the declaration node.\<close>

definition is_varargs :: "node \<Rightarrow> error + bool" where
  "is_varargs n =
     (case node_params n of
        Inl e \<Rightarrow> Inl e
      | Inr ps \<Rightarrow> Inr (length ps > 0 \<and> last ps = EllipsisParam))"

text \<open>\<^verbatim>\<open>Function._find_typedecl\<close>: follow \<^verbatim>\<open>type\<close> until a \<^verbatim>\<open>TypeDecl\<close>.\<close>

fun find_typedecl :: "node \<Rightarrow> error + node" where
  "find_typedecl (TypeDecl dn q t) = Inr (TypeDecl dn q t)"
| "find_typedecl (Decl nm q st fs t i b) = find_typedecl t"
| "find_typedecl (Typename nm q t) = find_typedecl t"
| "find_typedecl (PtrDecl q t) = find_typedecl t"
| "find_typedecl (ArrayDecl t d) = find_typedecl t"
| "find_typedecl (FuncDecl a t) = find_typedecl t"
| "find_typedecl (FileAST xs) = Inl AttributeError"
| "find_typedecl (IdentifierType ns) = Inl AttributeError"
| "find_typedecl EllipsisParam = Inl AttributeError"

text \<open>
  \<^verbatim>\<open>typedecl.declname = s\<close> for the node \<^verbatim>\<open>_find_typedecl\<close> returned: the tree with
  that one \<^verbatim>\<open>TypeDecl\<close> renamed. It is only applied where \<^verbatim>\<open>find_typedecl\<close> succeeded;
  elsewhere the tree is returned as it is.
\<close>

fun set_declname :: "string \<Rightarrow> node \<Rightarrow> node" where
  "set_declname s (TypeDecl dn q t) = TypeDecl (Some s) q t"
| "set_declname s (Decl nm q st fs t i b) = Decl nm q st fs (set_declname s t) i b"
| "set_declname s (Typename nm q t) = Typename nm q (set_declname s t)"
| "set_declname s (PtrDecl q t) = PtrDecl q (set_declname s t)"
| "set_declname s (ArrayDecl t d) = ArrayDecl (set_declname s t) d"
| "set_declname s (FuncDecl a t) = FuncDecl a (set_declname s t)"
| "set_declname s (FileAST xs) = FileAST xs"
| "set_declname s (IdentifierType ns) = IdentifierType ns"
| "set_declname s EllipsisParam = EllipsisParam"

text \<open>The \<^verbatim>\<open>va_list _vl\<close> argument that \<^verbatim>\<open>ctx_decl\<close> builds.\<close>

definition vl_arg :: node where
  "vl_arg =
     Decl (Some ''_vl'') [] [] []
       (TypeDecl (Some ''_vl'') [] (IdentifierType [''va_list''])) None None"

text \<open>\<^verbatim>\<open>f.args.params[-1] = arg\<close> on a \<^verbatim>\<open>FuncDecl\<close> with a non-empty parameter list.\<close>

fun set_last_param :: "node \<Rightarrow> node \<Rightarrow> node" where
  "set_last_param arg (FuncDecl (Some ps) t) = FuncDecl (Some (ps[length ps - 1 := arg])) t"
| "set_last_param arg n = n"

text \<open>
  The tree \<^verbatim>\<open>Function.ctx_decl\<close> hands to the C generator: a copy of the declaration
  whose type is wrapped in a pointer, whose ellipsis (if it is variadic) is replaced by
  \<^verbatim>\<open>va_list _vl\<close> and whose name is the slot name. The copy is deep, so the entry's own
  node stays as it was.
\<close>

definition ctx_decl_node :: "string \<Rightarrow> node \<Rightarrow> error + node" where
  "ctx_decl_node name n =
     (case attr_type n of
        Inl e \<Rightarrow> Inl e
      | Inr t \<Rightarrow>
          (let newnode = with_type n (PtrDecl [] t) in
           case find_typedecl newnode of
             Inl e \<Rightarrow> Inl e
           | Inr typedecl \<Rightarrow>
               (case is_varargs n of
                  Inl e \<Rightarrow> Inl e
                | Inr va \<Rightarrow>
                    (let newnode2 =
                       (if va then with_type n (PtrDecl [] (set_last_param vl_arg t))
                        else newnode)
                     in Inr (set_declname (ctx_name (Function name n)) newnode2)))))"

text \<open>
  The methods take the C generator \<^verbatim>\<open>toC\<close> as a parameter: it is pycparser's
  \<^verbatim>\<open>CGenerator().visit\<close>, a library outside this repository.
\<close>

fun ctx_decl :: "(node \<Rightarrow> string) \<Rightarrow> entry \<Rightarrow> error + string" where
  "ctx_decl toC (Function name n) =
     (case ctx_decl_node name n of Inl e \<Rightarrow> Inl e | Inr newnode \<Rightarrow> Inr (toC newnode))"
| "ctx_decl toC (GlobalVar name n) = Inr (toC n)"

text \<open>
  \<^verbatim>\<open>toC(node.type.type)\<close>: the return type of a function declaration, the type of
  a variable declaration, as text.
\<close>

definition toC_type_type :: "(node \<Rightarrow> string) \<Rightarrow> node \<Rightarrow> error + string" where
  "toC_type_type toC n =
     (case attr_type n of
        Inl e \<Rightarrow> Inl e
      | Inr t \<Rightarrow> (case attr_type t of Inl e \<Rightarrow> Inl e | Inr r \<Rightarrow> Inr (toC r)))"

text \<open>The part of the trampoline written when the function is not variadic.\<close>

definition plain_call_parts :: "string \<Rightarrow> string \<Rightarrow> node list \<Rightarrow> error + string list" where
  "plain_call_parts rettype cname ps =
     (case param_names ps of
        Inl e \<Rightarrow> Inl e
      | Inr params \<Rightarrow>
          (case join_names params of
             Inl e \<Rightarrow> Inl e
           | Inr joined \<Rightarrow>
               Inr ([if rettype = ''void'' then ''ctx->'' @ cname else ''return ctx->'' @ cname]
                    @ [''(''] @ [joined] @ ['');''])))"

text \<open>The part written when it is variadic.\<close>

definition varargs_call_parts :: "string \<Rightarrow> string \<Rightarrow> node list \<Rightarrow> error + string list" where
  "varargs_call_parts rettype cname ps =
     (case py_index ps (- 2) of
        Inl e \<Rightarrow> Inl e
      | Inr p \<Rightarrow>
          (case attr_name p of
             Inl e \<Rightarrow> Inl e
           | Inr last_param \<Rightarrow>
               (case param_names (butlast ps) of
                  Inl e \<Rightarrow> Inl e
                | Inr params \<Rightarrow>
                    (case join_names (params @ [Some ''_vl'']) of
                       Inl e \<Rightarrow> Inl e
                     | Inr joined \<Rightarrow>
                         Inr ([''va_list _vl;'']
                              @ [''va_start(_vl, '' @ py_str last_param @ '');'']
                              @ [if rettype = ''void'' then ''ctx->'' @ cname
                                 else rettype @ '' _res = ctx->'' @ cname]
                              @ [''(''] @ [joined] @ ['');'']
                              @ [''va_end(_vl);'']
                              @ (if rettype \<noteq> ''void'' then [''return _res;''] else []))))))"

text \<open>The list \<^verbatim>\<open>parts\<close> of \<^verbatim>\<open>Function.trampoline_def\<close>, in the order it is appended to.\<close>

definition trampoline_parts :: "(node \<Rightarrow> string) \<Rightarrow> string \<Rightarrow> node \<Rightarrow> error + string list" where
  "trampoline_parts toC name n =
     (case toC_type_type toC n of
        Inl e \<Rightarrow> Inl e
      | Inr rettype \<Rightarrow>
          (case is_varargs n of
             Inl e \<Rightarrow> Inl e
           | Inr va \<Rightarrow>
               (case node_params n of
                  Inl e \<Rightarrow> Inl e
                | Inr ps \<Rightarrow>
                    (case (if \<not> va then plain_call_parts rettype (ctx_name (Function name n)) ps
                           else varargs_call_parts rettype (ctx_name (Function name n)) ps) of
                       Inl e \<Rightarrow> Inl e
                     | Inr body \<Rightarrow>
                         Inr ([''static inline''] @ [toC n] @ [''{'' @ NL @ ''    '']
                              @ body @ [NL @ ''}''])))))"

text \<open>\<^verbatim>\<open>trampoline_def\<close>: text for a \<^verbatim>\<open>Function\<close>, \<^verbatim>\<open>None\<close> for a \<^verbatim>\<open>GlobalVar\<close>.\<close>

fun trampoline_def :: "(node \<Rightarrow> string) \<Rightarrow> entry \<Rightarrow> error + string option" where
  "trampoline_def toC (Function name n) =
     (case trampoline_parts toC name n of
        Inl e \<Rightarrow> Inl e
      | Inr parts \<Rightarrow> Inr (Some (join '' '' parts)))"
| "trampoline_def toC (GlobalVar name n) = Inr None"

section \<open>Classification: \<^verbatim>\<open>FuncDeclVisitor\<close>\<close>

text \<open>
  The visitor's state is the list of accepted entries; the warnings it prints are kept
  beside it, in the order printed.
\<close>

record visitor =
  declarations :: "entry list"
  warnings :: "string list"

text \<open>The loop of \<^verbatim>\<open>_visit_function\<close> over the parameters.\<close>

fun check_named :: "string \<Rightarrow> node list \<Rightarrow> error + unit" where
  "check_named name [] = Inr ()"
| "check_named name (p # ps) =
     (if hasattr_name p \<and> attr_name p = Inr None
      then Inl (ValueError (''non-named argument in declaration of '' @ name))
      else check_named name ps)"

definition visit_function :: "node \<Rightarrow> visitor \<Rightarrow> error + visitor" where
  "visit_function n v =
     (case attr_name n of
        Inl e \<Rightarrow> Inl e
      | Inr None \<Rightarrow> Inl AttributeError
      | Inr (Some name) \<Rightarrow>
          (if \<not> startswith name ''HPy'' \<and> \<not> startswith name ''_HPy''
           then Inr (v\<lparr>warnings := warnings v
                       @ [''WARNING: Ignoring non-hpy declaration: '' @ name]\<rparr>)
           else (case node_params n of
                   Inl e \<Rightarrow> Inl e
                 | Inr ps \<Rightarrow>
                     (case check_named name ps of
                        Inl e \<Rightarrow> Inl e
                      | Inr u \<Rightarrow>
                          Inr (v\<lparr>declarations := declarations v @ [Function name n]\<rparr>)))))"

definition visit_global_var :: "(node \<Rightarrow> string) \<Rightarrow> node \<Rightarrow> visitor \<Rightarrow> error + visitor" where
  "visit_global_var toC n v =
     (case attr_name n of
        Inl e \<Rightarrow> Inl e
      | Inr None \<Rightarrow> Inl AttributeError
      | Inr (Some name) \<Rightarrow>
          (if \<not> startswith name ''h_''
           then Inr (v\<lparr>warnings := warnings v
                       @ [''WARNING: Ignoring non-hpy variable declaration: '' @ name]\<rparr>)
           else (case toC_type_type toC n of
                   Inl e \<Rightarrow> Inl e
                 | Inr ty \<Rightarrow>
                     (if ty = ''HPy''
                      then Inr (v\<lparr>declarations := declarations v @ [GlobalVar name n]\<rparr>)
                      else Inl AssertionError))))"

definition visit_Decl :: "(node \<Rightarrow> string) \<Rightarrow> node \<Rightarrow> visitor \<Rightarrow> error + visitor" where
  "visit_Decl toC n v =
     (case attr_type n of
        Inl e \<Rightarrow> Inl e
      | Inr t \<Rightarrow>
          (case t of
             FuncDecl a r \<Rightarrow> visit_function n v
           | TypeDecl dn q b \<Rightarrow> visit_global_var toC n v
           | _ \<Rightarrow> Inr v))"

text \<open>
  \<^verbatim>\<open>NodeVisitor.visit\<close>: a \<^verbatim>\<open>Decl\<close> goes to \<^verbatim>\<open>visit_Decl\<close>, which does not
  descend; every other node has its children visited in order.
\<close>

fun visit :: "(node \<Rightarrow> string) \<Rightarrow> node \<Rightarrow> visitor \<Rightarrow> error + visitor"
and visit_children :: "(node \<Rightarrow> string) \<Rightarrow> node list \<Rightarrow> visitor \<Rightarrow> error + visitor" where
  "visit toC (Decl nm q st fs t i b) v = visit_Decl toC (Decl nm q st fs t i b) v"
| "visit toC (FileAST xs) v = visit_children toC xs v"
| "visit toC (Typename nm q t) v = visit toC t v"
| "visit toC (TypeDecl dn q t) v = visit toC t v"
| "visit toC (PtrDecl q t) v = visit toC t v"
| "visit toC (ArrayDecl t d) v = visit toC t v"
| "visit toC (FuncDecl a t) v =
     (case (case a of None \<Rightarrow> Inr v | Some ps \<Rightarrow> visit_children toC ps v) of
        Inl e \<Rightarrow> Inl e
      | Inr v' \<Rightarrow> visit toC t v')"
| "visit toC (IdentifierType ns) v = Inr v"
| "visit toC EllipsisParam v = Inr v"
| "visit_children toC [] v = Inr v"
| "visit_children toC (x # xs) v =
     (case visit toC x v of Inl e \<Rightarrow> Inl e | Inr v' \<Rightarrow> visit_children toC xs v')"

section \<open>\<^verbatim>\<open>AutoGen\<close>\<close>

definition collect_declarations :: "(node \<Rightarrow> string) \<Rightarrow> node \<Rightarrow> error + visitor" where
  "collect_declarations toC tree = visit toC tree \<lparr>declarations = [], warnings = []\<rparr>"

text \<open>
  \<^verbatim>\<open>AutoGen.__init__\<close>: \<^verbatim>\<open>parse\<close> stands for \<^verbatim>\<open>pycparser.parse_file\<close> with the
  C preprocessor, a function of the text of the declaration source.
\<close>

definition AutoGen_init ::
  "(string \<Rightarrow> error + node) \<Rightarrow> (node \<Rightarrow> string) \<Rightarrow> string \<Rightarrow> error + visitor" where
  "AutoGen_init parse toC src =
     (case parse src of Inl e \<Rightarrow> Inl e | Inr tree \<Rightarrow> collect_declarations toC tree)"

text \<open>The loop of \<^verbatim>\<open>gen_ctx_decl\<close>, appending to \<^verbatim>\<open>lines\<close>.\<close>

fun ctx_decl_lines :: "(node \<Rightarrow> string) \<Rightarrow> entry list \<Rightarrow> string list \<Rightarrow> error + string list" where
  "ctx_decl_lines toC [] lines = Inr lines"
| "ctx_decl_lines toC (f # fs) lines =
     (case ctx_decl toC f of
        Inl e \<Rightarrow> Inl e
      | Inr d \<Rightarrow> ctx_decl_lines toC fs (lines @ [''    '' @ d @ '';'']))"

definition gen_ctx_decl :: "(node \<Rightarrow> string) \<Rightarrow> entry list \<Rightarrow> error + string" where
  "gen_ctx_decl toC ds =
     (case ctx_decl_lines toC ds [''struct _HPyContext_s {'', ''    int ctx_version;''] of
        Inl e \<Rightarrow> Inl e
      | Inr lines \<Rightarrow> Inr (join NL (lines @ [''};''])))"

text \<open>The loop of \<^verbatim>\<open>gen_ctx_def\<close>.\<close>

fun ctx_def_lines :: "entry list \<Rightarrow> string list \<Rightarrow> string list" where
  "ctx_def_lines [] lines = lines"
| "ctx_def_lines (f # fs) lines =
     ctx_def_lines fs
       (lines @ [''    .'' @ ctx_name f @ '' = '' @ ctx_impl_name f @ '',''])"

definition gen_ctx_def :: "entry list \<Rightarrow> string" where
  "gen_ctx_def ds =
     join NL (ctx_def_lines ds
                [''struct _HPyContext_s global_ctx = {'', ''    .ctx_version = 1,'']
              @ [''};''])"

text \<open>
  The loop of \<^verbatim>\<open>gen_func_trampolines\<close>; \<^verbatim>\<open>if trampoline:\<close> is false for
  \<^verbatim>\<open>None\<close> and for the empty string.
\<close>

fun trampoline_lines :: "(node \<Rightarrow> string) \<Rightarrow> entry list \<Rightarrow> string list \<Rightarrow> error + string list" where
  "trampoline_lines toC [] lines = Inr lines"
| "trampoline_lines toC (f # fs) lines =
     (case trampoline_def toC f of
        Inl e \<Rightarrow> Inl e
      | Inr None \<Rightarrow> trampoline_lines toC fs lines
      | Inr (Some trampoline) \<Rightarrow>
          (if trampoline \<noteq> []
           then trampoline_lines toC fs (lines @ [trampoline] @ [[]])
           else trampoline_lines toC fs lines))"

definition gen_func_trampolines :: "(node \<Rightarrow> string) \<Rightarrow> entry list \<Rightarrow> error + string" where
  "gen_func_trampolines toC ds =
     (case trampoline_lines toC ds [] of
        Inl e \<Rightarrow> Inl e
      | Inr lines \<Rightarrow> Inr (join NL lines))"

text \<open>The loop of \<^verbatim>\<open>gen_pypy_decl\<close>.\<close>

fun pypy_decl_lines :: "entry list \<Rightarrow> string list \<Rightarrow> string list" where
  "pypy_decl_lines [] lines = lines"
| "pypy_decl_lines (f # fs) lines =
     pypy_decl_lines fs
       (lines @ [''    ('' @ SQ @ ctx_name f @ SQ @ '', '' @ ctx_pypy_type f @ ''),''])"

definition gen_pypy_decl :: "entry list \<Rightarrow> string" where
  "gen_pypy_decl ds =
     join NL (pypy_decl_lines ds
                [''HPyContextS = rffi.CStruct('' @ SQ @ ''_HPyContext_s'' @ SQ @ '','',
                 ''    ('' @ SQ @ ''ctx_version'' @ SQ @ '', rffi.INT_real),'']
              @ [''    hints={'' @ SQ @ ''eci'' @ SQ @ '': eci},'']
              @ ['')''])"

section \<open>The driver: \<^verbatim>\<open>main\<close>\<close>

definition DISCLAIMER :: string where
  "DISCLAIMER =
     NL @ ''/*'' @ NL
     @ ''   DO NOT EDIT THIS FILE!'' @ NL
     @ NL
     @ ''   This file is automatically generated by tools/autogen.py from tools/public_api.h.'' @ NL
     @ ''   Run this to regenerate:'' @ NL
     @ ''       make autogen'' @ NL
     @ NL
     @ ''*/'' @ NL"

text \<open>The paths of \<^verbatim>\<open>main\<close>, relative to the root of the checkout.\<close>

definition public_api :: string where
  "public_api = ''tools/public_api.h''"

definition autogen_ctx :: string where
  "autogen_ctx = ''hpy-api/hpy_devel/include/universal/autogen_ctx.h''"

definition autogen_func :: string where
  "autogen_func = ''hpy-api/hpy_devel/include/universal/autogen_func.h''"

definition autogen_ctx_def :: string where
  "autogen_ctx_def = ''cpython-universal/src/autogen_ctx_def.h''"

definition autogen_pypy :: string where
  "autogen_pypy = ''tools/autogen_pypy.txt''"

text \<open>
  The file system is a map from paths to contents. \<^verbatim>\<open>main\<close> returns the file system
  it leaves behind and the exception it ended with, if any. A missing declaration
  source ends the run in the parser. \<^verbatim>\<open>print(x, file=f)\<close> writes \<^verbatim>\<open>x\<close> and a
  newline. What \<^verbatim>\<open>main\<close> prints to the standard output is not a file and is left out,
  as are failures of the operating system while a file is written.
\<close>

type_synonym fs = "string \<rightharpoonup> string"

definition main ::
  "(string \<Rightarrow> error + node) \<Rightarrow> (node \<Rightarrow> string) \<Rightarrow> fs \<Rightarrow> fs \<times> error option" where
  "main parse toC files =
     (case files public_api of
        None \<Rightarrow> (files, Some ParseError)
      | Some src \<Rightarrow>
          (case AutoGen_init parse toC src of
             Inl e \<Rightarrow> (files, Some e)
           | Inr autogen \<Rightarrow>
               (case gen_ctx_decl toC (declarations autogen) of
                  Inl e \<Rightarrow> (files, Some e)
                | Inr ctx_decl_text \<Rightarrow>
                    (case gen_func_trampolines toC (declarations autogen) of
                       Inl e \<Rightarrow> (files, Some e)
                     | Inr func_trampolines \<Rightarrow>
                         (let ctx_def = gen_ctx_def (declarations autogen);
                              pypy_decl = gen_pypy_decl (declarations autogen);
                              files1 = files(autogen_ctx \<mapsto> DISCLAIMER @ NL @ ctx_decl_text @ NL);
                              files2 = files1(autogen_func \<mapsto>
                                         DISCLAIMER @ NL @ func_trampolines @ NL);
                              files3 = files2(autogen_ctx_def \<mapsto> DISCLAIMER @ NL @ ctx_def @ NL);
                              files4 = files3(autogen_pypy \<mapsto> pypy_decl @ NL)
                          in (files4, None))))))"

section \<open>What the visitor accepts and what it rejects\<close>

text \<open>
  The conditions under which \<^verbatim>\<open>_visit_function\<close> and \<^verbatim>\<open>_visit_global_var\<close> append
  an entry: the prefix of the name, and the check that follows it.
\<close>

fun accepted :: "(node \<Rightarrow> string) \<Rightarrow> entry \<Rightarrow> bool" where
  "accepted toC (Function name n) =
     ((startswith name ''HPy'' \<or> startswith name ''_HPy'')
      \<and> attr_name n = Inr (Some name)
      \<and> (case node_params n of Inl e \<Rightarrow> False | Inr ps \<Rightarrow> check_named name ps = Inr ()))"
| "accepted toC (GlobalVar name n) =
     (startswith name ''h_''
      \<and> attr_name n = Inr (Some name)
      \<and> toC_type_type toC n = Inr ''HPy'')"


text \<open>
  The naming rule in the words of the specification: strip one optional leading
  underscore, strip the prefix token (\<^verbatim>\<open>HPy\<close> with the underscore that may follow it),
  prepend \<^verbatim>\<open>ctx_\<close>.
\<close>

definition strip_optional :: "string \<Rightarrow> string \<Rightarrow> string" where
  "strip_optional p s = (if startswith s p then drop (length p) s else s)"

definition spec_slot_name :: "string \<Rightarrow> string" where
  "spec_slot_name name =
     ''ctx_'' @ strip_optional ''_'' (strip_optional ''HPy'' (strip_optional ''_'' name))"

text \<open>The four files \<^verbatim>\<open>main\<close> writes, in the order it writes them.\<close>

definition outputs :: "string list" where
  "outputs = [autogen_ctx, autogen_func, autogen_ctx_def, autogen_pypy]"

section \<open>A C generator for the examples\<close>

text \<open>
  Everything proved below about the generator holds for every \<^verbatim>\<open>toC\<close>. The closed
  examples need one: \<^verbatim>\<open>render\<close> prints declarations the way a C generator does, the
  base type first, then the declarator built from the name outwards.
\<close>

fun chain_name :: "node \<Rightarrow> string" where
  "chain_name (TypeDecl dn q t) = (case dn of None \<Rightarrow> [] | Some s \<Rightarrow> s)"
| "chain_name (Decl nm q st fs t i b) = chain_name t"
| "chain_name (Typename nm q t) = chain_name t"
| "chain_name (PtrDecl q t) = chain_name t"
| "chain_name (ArrayDecl t d) = chain_name t"
| "chain_name (FuncDecl a t) = chain_name t"
| "chain_name (FileAST xs) = []"
| "chain_name (IdentifierType ns) = []"
| "chain_name EllipsisParam = []"

definition quals_text :: "string list \<Rightarrow> string" where
  "quals_text q = (if q = [] then [] else join '' '' q @ '' '')"

fun render :: "node \<Rightarrow> string"
and base_text :: "node \<Rightarrow> string"
and modifiers :: "node \<Rightarrow> bool \<Rightarrow> string \<Rightarrow> string"
and render_list :: "node list \<Rightarrow> string list" where
  "render (Decl nm q st fs t i b) =
     quals_text fs @ quals_text st @ base_text t
     @ (let nstr = modifiers t False (chain_name t) in if nstr = [] then [] else '' '' @ nstr)
     @ (case b of None \<Rightarrow> [] | Some x \<Rightarrow> '' : '' @ x)
     @ (case i of None \<Rightarrow> [] | Some x \<Rightarrow> '' = '' @ x)"
| "render (Typename nm q t) =
     base_text t
     @ (let nstr = modifiers t False (chain_name t) in if nstr = [] then [] else '' '' @ nstr)"
| "render (TypeDecl dn q t) = quals_text q @ render t"
| "render (PtrDecl q t) =
     base_text t
     @ (let nstr = modifiers t True (if q = [] then ''*'' else ''* '' @ join '' '' q @ '' '')
        in if nstr = [] then [] else '' '' @ nstr)"
| "render (ArrayDecl t d) =
     base_text t
     @ (let nstr = modifiers t False (''['' @ (case d of None \<Rightarrow> [] | Some x \<Rightarrow> x) @ '']'')
        in if nstr = [] then [] else '' '' @ nstr)"
| "render (FuncDecl a t) =
     base_text t
     @ (let nstr = modifiers t False
                     (''('' @ join '', '' (case a of None \<Rightarrow> [] | Some ps \<Rightarrow> render_list ps)
                      @ '')'')
        in if nstr = [] then [] else '' '' @ nstr)"
| "render (IdentifierType ns) = join '' '' ns"
| "render EllipsisParam = ''...''"
| "render (FileAST xs) = concat (map (\<lambda>s. s @ '';'' @ NL) (render_list xs))"
| "base_text (TypeDecl dn q t) = quals_text q @ render t"
| "base_text (PtrDecl q t) = base_text t"
| "base_text (ArrayDecl t d) = base_text t"
| "base_text (FuncDecl a t) = base_text t"
| "base_text (Decl nm q st fs t i b) = render (Decl nm q st fs t i b)"
| "base_text (Typename nm q t) = render (Typename nm q t)"
| "base_text (IdentifierType ns) = render (IdentifierType ns)"
| "base_text EllipsisParam = render EllipsisParam"
| "base_text (FileAST xs) = render (FileAST xs)"
| "modifiers (PtrDecl q t) prev nstr =
     modifiers t True (if q = [] then ''*'' @ nstr else ''* '' @ join '' '' q @ '' '' @ nstr)"
| "modifiers (ArrayDecl t d) prev nstr =
     modifiers t False ((if prev then ''('' @ nstr @ '')'' else nstr)
                        @ ''['' @ (case d of None \<Rightarrow> [] | Some x \<Rightarrow> x) @ '']'')"
| "modifiers (FuncDecl a t) prev nstr =
     modifiers t False
       ((if prev then ''('' @ nstr @ '')'' else nstr)
        @ ''('' @ join '', '' (case a of None \<Rightarrow> [] | Some ps \<Rightarrow> render_list ps) @ '')'')"
| "modifiers (TypeDecl dn q t) prev nstr = nstr"
| "modifiers (Decl nm q st fs t i b) prev nstr = nstr"
| "modifiers (Typename nm q t) prev nstr = nstr"
| "modifiers (IdentifierType ns) prev nstr = nstr"
| "modifiers EllipsisParam prev nstr = nstr"
| "modifiers (FileAST xs) prev nstr = nstr"
| "render_list [] = []"
| "render_list (x # xs) = render x # render_list xs"

section \<open>Sample declarations\<close>

text \<open>A declaration \<^verbatim>\<open>T name\<close> of a typedef name \<^verbatim>\<open>T\<close>, and a function declaration.\<close>

definition var_decl :: "string \<Rightarrow> string \<Rightarrow> node" where
  "var_decl ty name =
     Decl (Some name) [] [] [] (TypeDecl (Some name) [] (IdentifierType [ty])) None None"

definition func_decl :: "string \<Rightarrow> string \<Rightarrow> node list option \<Rightarrow> node" where
  "func_decl ty name ps =
     Decl (Some name) [] [] []
       (FuncDecl ps (TypeDecl (Some name) [] (IdentifierType [ty]))) None None"

text \<open>\<^verbatim>\<open>HPy HPyThing_Create(HPyContext ctx, long size);\<close>\<close>

definition Thing_Create :: node where
  "Thing_Create =
     func_decl ''HPy'' ''HPyThing_Create''
       (Some [var_decl ''HPyContext'' ''ctx'', var_decl ''long'' ''size''])"

text \<open>\<^verbatim>\<open>HPy h_None;\<close>\<close>

definition h_None :: node where
  "h_None = var_decl ''HPy'' ''h_None''"

text \<open>\<^verbatim>\<open>HPy HPyErr_Format(HPyContext ctx, const char *fmt, ...);\<close>\<close>

definition Err_Format :: node where
  "Err_Format =
     func_decl ''HPy'' ''HPyErr_Format''
       (Some [var_decl ''HPyContext'' ''ctx'',
              Decl (Some ''fmt'') [] [] []
                (PtrDecl [] (TypeDecl (Some ''fmt'') [''const''] (IdentifierType [''char''])))
                None None,
              EllipsisParam])"

text \<open>\<^verbatim>\<open>void HPy_Close(HPyContext ctx, HPy h);\<close>\<close>

definition Close :: node where
  "Close =
     func_decl ''void'' ''HPy_Close''
       (Some [var_decl ''HPyContext'' ''ctx'', var_decl ''HPy'' ''h''])"

text \<open>A parameter list that is the ellipsis alone; no C source parses to it.\<close>

definition Only_Ellipsis :: node where
  "Only_Ellipsis = func_decl ''HPy'' ''HPy_Only'' (Some [EllipsisParam])"

text \<open>\<^verbatim>\<open>HPy HPy_Foo(HPyContext ctx);\<close> and \<^verbatim>\<open>HPy _HPy_Foo(HPyContext ctx);\<close>\<close>

definition Foo :: node where
  "Foo = func_decl ''HPy'' ''HPy_Foo'' (Some [var_decl ''HPyContext'' ''ctx''])"

definition Foo_private :: node where
  "Foo_private = func_decl ''HPy'' ''_HPy_Foo'' (Some [var_decl ''HPyContext'' ''ctx''])"

text \<open>\<^verbatim>\<open>HPy HPy_Bad(HPyContext);\<close>, a parameter without a name.\<close>

definition Bad_param :: node where
  "Bad_param =
     func_decl ''HPy'' ''HPy_Bad''
       (Some [Typename None [] (TypeDecl None [] (IdentifierType [''HPyContext'']))])"

text \<open>\<^verbatim>\<open>long h_Bad;\<close>, a constant that is not a handle.\<close>

definition Bad_const :: node where
  "Bad_const = var_decl ''long'' ''h_Bad''"

text \<open>\<^verbatim>\<open>long *h_Bad;\<close>, a pointer with the name of a constant.\<close>

definition Bad_ptr_const :: node where
  "Bad_ptr_const =
     Decl (Some ''h_Bad'') [] [] []
       (PtrDecl [] (TypeDecl (Some ''h_Bad'') [] (IdentifierType [''long''])))
       None None"

text \<open>\<^verbatim>\<open>HPy HPy_Log(HPyContext ctx, int ( *cb)(const char *fmt, ...), ...);\<close>\<close>

definition Log_callback :: node where
  "Log_callback =
     Decl (Some ''cb'') [] [] []
       (PtrDecl []
          (FuncDecl
             (Some [Decl (Some ''fmt'') [] [] []
                      (PtrDecl []
                         (TypeDecl (Some ''fmt'') [''const''] (IdentifierType [''char''])))
                      None None,
                    EllipsisParam])
             (TypeDecl (Some ''cb'') [] (IdentifierType [''int'']))))
       None None"

definition Log :: node where
  "Log =
     func_decl ''HPy'' ''HPy_Log''
       (Some [var_decl ''HPyContext'' ''ctx'', Log_callback, EllipsisParam])"

text \<open>
  A parser for the examples: a table from the texts of four declaration sources to
  their trees.
\<close>

definition source_A :: string where
  "source_A = ''HPy HPyThing_Create(HPyContext ctx, long size); HPy h_None;''"

definition source_B :: string where
  "source_B = ''HPy HPy_Foo(HPyContext ctx); HPy _HPy_Foo(HPyContext ctx);''"

definition source_C :: string where
  "source_C = ''HPy h_None; HPy HPy_Bad(HPyContext);''"

definition source_D :: string where
  "source_D = ''HPy h_None; long *h_Bad;''"

definition sample_parse :: "string \<Rightarrow> error + node" where
  "sample_parse src =
     (if src = source_A then Inr (FileAST [Thing_Create, h_None])
      else if src = source_B then Inr (FileAST [Foo, Foo_private])
      else if src = source_C then Inr (FileAST [h_None, Bad_param])
      else if src = source_D then Inr (FileAST [h_None, Bad_ptr_const])
      else Inl ParseError)"

definition sample_files :: "string \<Rightarrow> fs" where
  "sample_files src = [public_api \<mapsto> src]"

text \<open>The entries the visitor builds from \<^verbatim>\<open>source_A\<close>.\<close>

definition sample_entries :: "entry list" where
  "sample_entries = [Function ''HPyThing_Create'' Thing_Create, GlobalVar ''h_None'' h_None]"

section \<open>The loops in closed form\<close>

lemma ctx_def_lines_eq:
  "ctx_def_lines ds acc =
     acc @ map (\<lambda>f. ''    .'' @ ctx_name f @ '' = '' @ ctx_impl_name f @ '','') ds"
  by (induction ds arbitrary: acc) simp_all

lemma pypy_decl_lines_eq:
  "pypy_decl_lines ds acc =
     acc @ map (\<lambda>f. ''    ('' @ SQ @ ctx_name f @ SQ @ '', '' @ ctx_pypy_type f @ ''),'') ds"
  by (induction ds arbitrary: acc) simp_all

lemma ctx_decl_lines_eq:
  "ctx_decl_lines toC ds acc = Inr lines \<Longrightarrow>
     \<exists>cs. map (ctx_decl toC) ds = map Inr cs \<and> lines = acc @ map (\<lambda>d. ''    '' @ d @ '';'') cs"
proof (induction ds arbitrary: acc)
  case Nil
  then show ?case by simp
next
  case (Cons f fs)
  then obtain d where d: "ctx_decl toC f = Inr d"
    and rest: "ctx_decl_lines toC fs (acc @ [''    '' @ d @ '';'']) = Inr lines"
    by (auto split: sum.splits)
  from Cons.IH [OF rest] obtain cs where
    cs: "map (ctx_decl toC) fs = map Inr cs"
        "lines = (acc @ [''    '' @ d @ '';'']) @ map (\<lambda>d. ''    '' @ d @ '';'') cs"
    by blast
  have "map (ctx_decl toC) (f # fs) = map Inr (d # cs)"
    using d cs(1) by simp
  moreover have "lines = acc @ map (\<lambda>d. ''    '' @ d @ '';'') (d # cs)"
    using cs(2) by simp
  ultimately show ?case by blast
qed

lemma join_nonempty: "x \<noteq> [] \<Longrightarrow> join sep (x # xs) \<noteq> []"
  by (cases xs) simp_all

lemma trampoline_parts_head:
  "trampoline_parts toC name n = Inr parts \<Longrightarrow> \<exists>rest. parts = ''static inline'' # toC n # rest"
  by (auto simp: trampoline_parts_def split: sum.splits)

lemma trampoline_def_nonempty:
  "trampoline_def toC (Function name n) = Inr (Some t) \<Longrightarrow> t \<noteq> []"
proof -
  assume a: "trampoline_def toC (Function name n) = Inr (Some t)"
  then obtain parts where p: "trampoline_parts toC name n = Inr parts" and t: "t = join '' '' parts"
    by (auto split: sum.splits)
  from trampoline_parts_head [OF p] obtain rest where "parts = ''static inline'' # toC n # rest"
    by blast
  with t show ?thesis by simp
qed

lemma trampoline_lines_eq:
  "trampoline_lines toC ds acc = Inr lines \<Longrightarrow>
     \<exists>ts. map (trampoline_def toC) (filter is_Function ds) = map (\<lambda>t. Inr (Some t)) ts
          \<and> lines = acc @ concat (map (\<lambda>t. [t, []]) ts)"
proof (induction ds arbitrary: acc)
  case Nil
  then show ?case by simp
next
  case (Cons f fs)
  show ?case
  proof (cases f)
    case (GlobalVar name n)
    with Cons.prems have "trampoline_lines toC fs acc = Inr lines" by simp
    from Cons.IH [OF this] show ?thesis using GlobalVar by simp
  next
    case (Function name n)
    with Cons.prems obtain r where r: "trampoline_def toC (Function name n) = Inr r"
      by (auto split: sum.splits simp del: trampoline_def.simps)
    then obtain t where "r = Some t"
      by (auto split: sum.splits)
    with r have t: "trampoline_def toC (Function name n) = Inr (Some t)" by simp
    have ne: "t \<noteq> []" by (rule trampoline_def_nonempty [OF t])
    have rest: "trampoline_lines toC fs (acc @ [t] @ [[]]) = Inr lines"
      using Cons.prems Function t ne by (simp del: trampoline_def.simps)
    from Cons.IH [OF rest] obtain ts where
      ts: "map (trampoline_def toC) (filter is_Function fs) = map (\<lambda>t. Inr (Some t)) ts"
          "lines = (acc @ [t] @ [[]]) @ concat (map (\<lambda>t. [t, []]) ts)"
      by blast
    have "map (trampoline_def toC) (filter is_Function (f # fs)) = map (\<lambda>t. Inr (Some t)) (t # ts)"
      using Function t ts(1) by (simp del: trampoline_def.simps)
    moreover have "lines = acc @ concat (map (\<lambda>t. [t, []]) (t # ts))"
      using ts(2) by simp
    ultimately show ?thesis by blast
  qed
qed

lemma startswith_split: "startswith s p \<Longrightarrow> s = p @ drop (length p) s"
  unfolding startswith_def by (metis append_take_drop_id)

lemma CTX_NAME_sub_spec:
  assumes "startswith name ''HPy'' \<or> startswith name ''_HPy''"
  shows "CTX_NAME_sub name = spec_slot_name name"
proof -
  from assms obtain r where "name = ''HPy'' @ r \<or> name = ''_HPy'' @ r"
    using startswith_split by fastforce
  then show ?thesis
    by (auto simp: CTX_NAME_sub_def CTX_NAME_match_def spec_slot_name_def strip_optional_def
        startswith_def Let_def)
qed

lemma visit_function_accepted:
  "visit_function n v = Inr v' \<Longrightarrow> list_all (accepted toC) (declarations v) \<Longrightarrow>
     list_all (accepted toC) (declarations v')"
  by (auto simp: visit_function_def split: sum.splits option.splits if_splits)

lemma visit_global_var_accepted:
  "visit_global_var toC n v = Inr v' \<Longrightarrow> list_all (accepted toC) (declarations v) \<Longrightarrow>
     list_all (accepted toC) (declarations v')"
  by (auto simp: visit_global_var_def split: sum.splits option.splits if_splits)

lemma visit_Decl_accepted:
  "visit_Decl toC n v = Inr v' \<Longrightarrow> list_all (accepted toC) (declarations v) \<Longrightarrow>
     list_all (accepted toC) (declarations v')"
  by (auto simp: visit_Decl_def split: sum.splits node.splits
      dest: visit_function_accepted visit_global_var_accepted)

lemma visit_accepted:
  "\<forall>v'. visit toC n v = Inr v' \<longrightarrow> list_all (accepted toC) (declarations v) \<longrightarrow>
     list_all (accepted toC) (declarations v')"
  "\<forall>v'. visit_children toC ns v = Inr v' \<longrightarrow> list_all (accepted toC) (declarations v) \<longrightarrow>
     list_all (accepted toC) (declarations v')"
proof (induction toC n v and toC ns v rule: visit_visit_children.induct)
  case (1 toC nm q st fs t i b v)
  then show ?case using visit_Decl_accepted by auto
next
  case (7 toC a t v)
  then show ?case by (auto split: sum.splits option.splits)
next
  case (11 toC x xs v)
  then show ?case by (auto split: sum.splits)
qed auto

section \<open>Unfolding the definitions on concrete input\<close>

lemmas sample_defs = Thing_Create_def h_None_def Err_Format_def Close_def Only_Ellipsis_def
  Foo_def Foo_private_def Bad_param_def Bad_const_def Bad_ptr_const_def Log_callback_def
  Log_def var_decl_def func_decl_def
  sample_entries_def

lemmas method_defs = trampoline_parts_def plain_call_parts_def varargs_call_parts_def
  toC_type_type_def is_varargs_def node_params_def join_names_def py_index_def py_str_def
  CTX_NAME_sub_def CTX_NAME_match_def startswith_def ctx_decl_node_def vl_arg_def
  quals_text_def NL_def SQ_def Let_def

lemmas visitor_defs = collect_declarations_def AutoGen_init_def visit_Decl_def
  visit_function_def visit_global_var_def hasattr_name_def

lemmas gen_defs = gen_ctx_decl_def gen_ctx_def_def gen_func_trampolines_def gen_pypy_decl_def

lemmas path_defs = public_api_def autogen_ctx_def autogen_func_def autogen_ctx_def_def
  autogen_pypy_def outputs_def

section \<open>Slot names\<close>

text \<open>
  Claim C5, amended. For every accepted callable entry the field name is the declared
  name with one optional leading underscore stripped, then the prefix \<^verbatim>\<open>HPy\<close> and the
  underscore that may follow it stripped, then \<^verbatim>\<open>ctx_\<close> prepended. For every accepted
  constant entry the field name is the declared name unchanged. Both are functions of
  the declared name alone.
\<close>

theorem C5_slot_name:
  assumes "collect_declarations toC tree = Inr v" and "e \<in> set (declarations v)"
  shows "ctx_name e = (if is_Function e then spec_slot_name (entry_name e) else entry_name e)"
proof -
  have "list_all (accepted toC) (declarations v)"
    using visit_accepted(1) [of toC tree "\<lparr>declarations = [], warnings = []\<rparr>"] assms(1)
    by (simp add: collect_declarations_def)
  with assms(2) have acc: "accepted toC e"
    by (simp add: list_all_iff)
  show ?thesis
  proof (cases e)
    case (Function name n)
    with acc have "startswith name ''HPy'' \<or> startswith name ''_HPy''" by simp
    then show ?thesis using Function by (simp add: CTX_NAME_sub_spec)
  next
    case (GlobalVar name n)
    then show ?thesis by simp
  qed
qed

text \<open>The visitor on the two declarations of \<^verbatim>\<open>source_A\<close>.\<close>

lemma collect_sample:
  "collect_declarations render (FileAST [Thing_Create, h_None]) =
     Inr \<lparr>declarations = sample_entries, warnings = []\<rparr>"
  by (simp add: sample_defs method_defs visitor_defs)

text \<open>
  Claim C5, witness: \<^verbatim>\<open>HPyThing_Create\<close> is accepted and is given the field name
  \<^verbatim>\<open>ctx_Thing_Create\<close>.
\<close>

theorem C5_slot_name_witness:
  "collect_declarations render (FileAST [Thing_Create, h_None]) =
     Inr \<lparr>declarations = sample_entries, warnings = []\<rparr>
   \<and> Function ''HPyThing_Create'' Thing_Create \<in> set sample_entries
   \<and> ctx_name (Function ''HPyThing_Create'' Thing_Create) = spec_slot_name ''HPyThing_Create''
   \<and> spec_slot_name ''HPyThing_Create'' = ''ctx_Thing_Create''"
proof -
  have m: "Function ''HPyThing_Create'' Thing_Create
             \<in> set (declarations \<lparr>declarations = sample_entries, warnings = []\<rparr>)"
    by (simp add: sample_entries_def)
  have s: "spec_slot_name ''HPyThing_Create'' = ''ctx_Thing_Create''"
    by (simp add: spec_slot_name_def strip_optional_def startswith_def)
  show ?thesis
    using C5_slot_name [OF collect_sample m] collect_sample m s by simp
qed

text \<open>
  Claim C5, counterexample to the rule applied to constants: the accepted constant
  \<^verbatim>\<open>h_None\<close> keeps its name, where the prefix rule would give \<^verbatim>\<open>ctx_h_None\<close>.
\<close>

theorem C5_counterexample:
  "collect_declarations render (FileAST [h_None]) =
     Inr \<lparr>declarations = [GlobalVar ''h_None'' h_None], warnings = []\<rparr>
   \<and> ctx_name (GlobalVar ''h_None'' h_None) = ''h_None''
   \<and> spec_slot_name ''h_None'' = ''ctx_h_None''
   \<and> ctx_name (GlobalVar ''h_None'' h_None) \<noteq> spec_slot_name ''h_None''"
  by (simp add: sample_defs method_defs visitor_defs spec_slot_name_def strip_optional_def)

section \<open>Declaration order\<close>

text \<open>
  Claim C4. Whenever the type declaration and the trampolines are generated, each of the
  four texts lists the entries in the order of the entry list, with nothing sorted or
  moved: the type declaration, the initializer and the foreign descriptor have one line
  per entry, the trampoline set one trampoline (and an empty line) per callable entry.
  In the type declaration, the initializer and the foreign descriptor the version field
  is the line right after the opening line, before every entry, however many follow.
\<close>

theorem C4_declaration_order:
  assumes "gen_ctx_decl toC ds = Inr decl_text"
    and "gen_func_trampolines toC ds = Inr tramp_text"
  shows "\<exists>cs ts.
      map (ctx_decl toC) ds = map Inr cs
    \<and> map (trampoline_def toC) (filter is_Function ds) = map (\<lambda>t. Inr (Some t)) ts
    \<and> decl_text =
        join NL ([''struct _HPyContext_s {'', ''    int ctx_version;'']
                 @ map (\<lambda>c. ''    '' @ c @ '';'') cs @ [''};''])
    \<and> gen_ctx_def ds =
        join NL ([''struct _HPyContext_s global_ctx = {'', ''    .ctx_version = 1,'']
                 @ map (\<lambda>f. ''    .'' @ ctx_name f @ '' = '' @ ctx_impl_name f @ '','') ds
                 @ [''};''])
    \<and> tramp_text = join NL (concat (map (\<lambda>t. [t, []]) ts))
    \<and> gen_pypy_decl ds =
        join NL ([''HPyContextS = rffi.CStruct('' @ SQ @ ''_HPyContext_s'' @ SQ @ '','',
                  ''    ('' @ SQ @ ''ctx_version'' @ SQ @ '', rffi.INT_real),'']
                 @ map (\<lambda>f. ''    ('' @ SQ @ ctx_name f @ SQ @ '', '' @ ctx_pypy_type f @ ''),'') ds
                 @ [''    hints={'' @ SQ @ ''eci'' @ SQ @ '': eci},'', '')''])"
proof -
  from assms(1) obtain l1 where
    l1: "ctx_decl_lines toC ds [''struct _HPyContext_s {'', ''    int ctx_version;''] = Inr l1"
    and d: "decl_text = join NL (l1 @ [''};''])"
    by (auto simp: gen_ctx_decl_def split: sum.splits)
  from ctx_decl_lines_eq [OF l1] obtain cs where
    cs: "map (ctx_decl toC) ds = map Inr cs"
        "l1 = [''struct _HPyContext_s {'', ''    int ctx_version;'']
               @ map (\<lambda>d. ''    '' @ d @ '';'') cs"
    by blast
  from assms(2) obtain l2 where
    l2: "trampoline_lines toC ds [] = Inr l2" and t: "tramp_text = join NL l2"
    by (auto simp: gen_func_trampolines_def split: sum.splits)
  from trampoline_lines_eq [OF l2] obtain ts where
    ts: "map (trampoline_def toC) (filter is_Function ds) = map (\<lambda>t. Inr (Some t)) ts"
        "l2 = [] @ concat (map (\<lambda>t. [t, []]) ts)"
    by blast
  have a: "decl_text =
        join NL ([''struct _HPyContext_s {'', ''    int ctx_version;'']
                 @ map (\<lambda>c. ''    '' @ c @ '';'') cs @ [''};''])"
    using d cs(2) by simp
  have b: "tramp_text = join NL (concat (map (\<lambda>t. [t, []]) ts))"
    using t ts(2) by simp
  have c: "gen_ctx_def ds =
        join NL ([''struct _HPyContext_s global_ctx = {'', ''    .ctx_version = 1,'']
                 @ map (\<lambda>f. ''    .'' @ ctx_name f @ '' = '' @ ctx_impl_name f @ '','') ds
                 @ [''};''])"
    by (simp add: gen_ctx_def_def ctx_def_lines_eq)
  have e: "gen_pypy_decl ds =
        join NL ([''HPyContextS = rffi.CStruct('' @ SQ @ ''_HPyContext_s'' @ SQ @ '','',
                  ''    ('' @ SQ @ ''ctx_version'' @ SQ @ '', rffi.INT_real),'']
                 @ map (\<lambda>f. ''    ('' @ SQ @ ctx_name f @ SQ @ '', '' @ ctx_pypy_type f @ ''),'') ds
                 @ [''    hints={'' @ SQ @ ''eci'' @ SQ @ '': eci},'', '')''])"
    by (simp add: gen_pypy_decl_def pypy_decl_lines_eq)
  from cs(1) ts(1) a b c e show ?thesis by blast
qed

text \<open>The type declaration and the trampolines of the sample entries.\<close>

lemma sample_ctx_decl:
  "gen_ctx_decl render sample_entries =
     Inr (''struct _HPyContext_s {\<newline>    int ctx_version;\<newline>    HPy ('' @ ''*ctx_Thing_Create)(HPyContext ctx, long size);\<newline>    HPy h_None;\<newline>};'')"
  by (simp add: sample_defs method_defs gen_defs)

lemma sample_trampolines:
  "gen_func_trampolines render sample_entries =
     Inr ''static inline HPy HPyThing_Create(HPyContext ctx, long size) {\<newline>     return ctx->ctx_Thing_Create ( ctx, size ); \<newline>}\<newline>''"
  by (simp add: sample_defs method_defs gen_defs)

text \<open>
  Claim C4, witness: the sample entries, a callable followed by a constant, with the
  texts generated for them.
\<close>

theorem C4_declaration_order_witness:
  "gen_ctx_decl render sample_entries =
     Inr (''struct _HPyContext_s {\<newline>    int ctx_version;\<newline>    HPy ('' @ ''*ctx_Thing_Create)(HPyContext ctx, long size);\<newline>    HPy h_None;\<newline>};'')
   \<and> gen_func_trampolines render sample_entries =
     Inr ''static inline HPy HPyThing_Create(HPyContext ctx, long size) {\<newline>     return ctx->ctx_Thing_Create ( ctx, size ); \<newline>}\<newline>''
   \<and> (\<exists>cs ts.
      map (ctx_decl render) sample_entries = map Inr cs
    \<and> map (trampoline_def render) (filter is_Function sample_entries) = map (\<lambda>t. Inr (Some t)) ts
    \<and> gen_ctx_def sample_entries =
        join NL ([''struct _HPyContext_s global_ctx = {'', ''    .ctx_version = 1,'']
                 @ map (\<lambda>f. ''    .'' @ ctx_name f @ '' = '' @ ctx_impl_name f @ '','') sample_entries
                 @ [''};'']))"
  using C4_declaration_order [OF sample_ctx_decl sample_trampolines]
    sample_ctx_decl sample_trampolines by blast

section \<open>The static initializer\<close>

text \<open>
  Claim C6, amended. The initializer opens with the line of the structure and the version
  field set to 1, then has exactly one field initializer per entry, in the order of the
  entries. A callable slot is bound to the address of the symbol that has the slot's
  own name (\<^verbatim>\<open>&ctx_X\<close>); a constant slot is bound to \<^verbatim>\<open>(HPy){CONSTANT_N}\<close> where
  \<^verbatim>\<open>N\<close> is the slot name in upper case.
\<close>

theorem C6_initializer:
  "gen_ctx_def ds =
     join NL ([''struct _HPyContext_s global_ctx = {'', ''    .ctx_version = 1,'']
              @ map (\<lambda>f. ''    .'' @ ctx_name f @ '' = ''
                          @ (if is_Function f then ''&'' @ ctx_name f
                             else ''(HPy){CONSTANT_'' @ upper (ctx_name f) @ ''}'') @ '','') ds
              @ [''};''])
   \<and> length (ctx_def_lines ds [''struct _HPyContext_s global_ctx = {'', ''    .ctx_version = 1,''])
       = length ds + 2"
proof -
  have "ctx_impl_name f = (if is_Function f then ''&'' @ ctx_name f
          else ''(HPy){CONSTANT_'' @ upper (ctx_name f) @ ''}'')" for f
    by (cases f) simp_all
  then show ?thesis
    by (simp add: gen_ctx_def_def ctx_def_lines_eq)
qed

text \<open>
  Claim C6, counterexample to the binding to the trampoline: the trampoline generated
  for \<^verbatim>\<open>HPy_Foo\<close> defines the function \<^verbatim>\<open>HPy_Foo\<close>, the name in its declaration,
  and the initializer binds the slot to \<^verbatim>\<open>&ctx_Foo\<close>.
\<close>

theorem C6_counterexample:
  "ctx_impl_name (Function ''HPy_Foo'' Foo) = ''&ctx_Foo''
   \<and> chain_name Foo = ''HPy_Foo''
   \<and> ctx_impl_name (Function ''HPy_Foo'' Foo) \<noteq> ''&'' @ chain_name Foo
   \<and> trampoline_def render (Function ''HPy_Foo'' Foo) =
       Inr (Some ''static inline HPy HPy_Foo(HPyContext ctx) {\<newline>     return ctx->ctx_Foo ( ctx ); \<newline>}'')
   \<and> gen_ctx_def [Function ''HPy_Foo'' Foo] =
       ''struct _HPyContext_s global_ctx = {\<newline>    .ctx_version = 1,\<newline>    .ctx_Foo = &ctx_Foo,\<newline>};''"
  by (simp add: sample_defs method_defs gen_ctx_def_def)

section \<open>How a run ends\<close>

text \<open>The five paths of \<^verbatim>\<open>main\<close> are different files.\<close>

lemma outputs_distinct:
  "public_api \<noteq> autogen_ctx" "public_api \<noteq> autogen_func" "public_api \<noteq> autogen_ctx_def"
  "public_api \<noteq> autogen_pypy" "autogen_ctx \<noteq> autogen_func" "autogen_ctx \<noteq> autogen_ctx_def"
  "autogen_ctx \<noteq> autogen_pypy" "autogen_func \<noteq> autogen_ctx_def"
  "autogen_func \<noteq> autogen_pypy" "autogen_ctx_def \<noteq> autogen_pypy"
  by (simp_all add: path_defs)

text \<open>
  A run that passes classification and the two generators that can raise writes the
  four files; every other run leaves the file system as it found it.
\<close>

lemma main_success:
  assumes "files public_api = Some src"
    and "AutoGen_init parse toC src = Inr ag"
    and "gen_ctx_decl toC (declarations ag) = Inr a"
    and "gen_func_trampolines toC (declarations ag) = Inr b"
  shows "main parse toC files =
     (files(autogen_ctx \<mapsto> DISCLAIMER @ NL @ a @ NL,
            autogen_func \<mapsto> DISCLAIMER @ NL @ b @ NL,
            autogen_ctx_def \<mapsto> DISCLAIMER @ NL @ gen_ctx_def (declarations ag) @ NL,
            autogen_pypy \<mapsto> gen_pypy_decl (declarations ag) @ NL), None)"
  using assms by (simp add: main_def Let_def)

lemma main_result:
  obtains (failed) e where "main parse toC files = (files, Some e)"
    "\<And>files'. files' public_api = files public_api \<Longrightarrow> main parse toC files' = (files', Some e)"
  | (written) src ag a b where "files public_api = Some src"
      "AutoGen_init parse toC src = Inr ag"
      "gen_ctx_decl toC (declarations ag) = Inr a"
      "gen_func_trampolines toC (declarations ag) = Inr b"
proof (cases "files public_api")
  case None
  then have "main parse toC files = (files, Some ParseError)"
    "\<And>files'. files' public_api = files public_api \<Longrightarrow> main parse toC files' = (files', Some ParseError)"
    by (simp_all add: main_def)
  then show ?thesis by (rule failed)
next
  case (Some src)
  show ?thesis
  proof (cases "AutoGen_init parse toC src")
    case (Inl e)
    with Some have "main parse toC files = (files, Some e)"
      "\<And>files'. files' public_api = files public_api \<Longrightarrow> main parse toC files' = (files', Some e)"
      by (simp_all add: main_def)
    then show ?thesis by (rule failed)
  next
    case (Inr ag)
    show ?thesis
    proof (cases "gen_ctx_decl toC (declarations ag)")
      case (Inl e)
      with Some Inr have "main parse toC files = (files, Some e)"
        "\<And>files'. files' public_api = files public_api \<Longrightarrow> main parse toC files' = (files', Some e)"
        by (simp_all add: main_def)
      then show ?thesis by (rule failed)
    next
      case a: (Inr a)
      show ?thesis
      proof (cases "gen_func_trampolines toC (declarations ag)")
        case (Inl e)
        with Some Inr a have "main parse toC files = (files, Some e)"
          "\<And>files'. files' public_api = files public_api \<Longrightarrow> main parse toC files' = (files', Some e)"
          by (simp_all add: main_def)
        then show ?thesis by (rule failed)
      next
        case b: (Inr b)
        from Some Inr a b show ?thesis by (rule written)
      qed
    qed
  qed
qed

lemma startswith_append: "startswith (p @ s) p"
  by (simp add: startswith_def)

lemma join_Cons2: "join sep (x # y # ys) = x @ sep @ join sep (y # ys)"
  by simp

lemma gen_pypy_decl_head:
  "\<exists>d. gen_pypy_decl ds = ''HPyContextS = rffi.CStruct('' @ d"
  by (simp add: gen_pypy_decl_def pypy_decl_lines_eq)

lemma DISCLAIMER_head: "\<exists>d. DISCLAIMER = CHR 0x0A # d"
  by (simp add: DISCLAIMER_def NL_def)

section \<open>The notice at the head of the files\<close>

text \<open>
  Claim C8, amended. In every run that writes its files, the three C headers (the type
  declaration, the trampoline set and the static initializer) begin with the notice
  \<^verbatim>\<open>DISCLAIMER\<close>; the foreign descriptor is written without it and begins with its
  own first line, \<^verbatim>\<open>HPyContextS = rffi.CStruct(\<close>.
\<close>

theorem C8_notice:
  assumes "main parse toC files = (files', None)"
  shows "(\<exists>a. files' autogen_ctx = Some a \<and> startswith a DISCLAIMER)
       \<and> (\<exists>b. files' autogen_func = Some b \<and> startswith b DISCLAIMER)
       \<and> (\<exists>c. files' autogen_ctx_def = Some c \<and> startswith c DISCLAIMER)
       \<and> (\<exists>d. files' autogen_pypy = Some d \<and> startswith d ''HPyContextS = rffi.CStruct(''
              \<and> \<not> startswith d DISCLAIMER)"
proof (cases rule: main_result [of parse toC files])
  case (failed e)
  with assms show ?thesis by simp
next
  case (written src ag a b)
  from main_success [where files = files, OF written] assms have f:
    "files' = files(autogen_ctx \<mapsto> DISCLAIMER @ NL @ a @ NL,
            autogen_func \<mapsto> DISCLAIMER @ NL @ b @ NL,
            autogen_ctx_def \<mapsto> DISCLAIMER @ NL @ gen_ctx_def (declarations ag) @ NL,
            autogen_pypy \<mapsto> gen_pypy_decl (declarations ag) @ NL)"
    by simp
  obtain d where d: "gen_pypy_decl (declarations ag) = ''HPyContextS = rffi.CStruct('' @ d"
    using gen_pypy_decl_head by blast
  obtain r where r: "DISCLAIMER = CHR 0x0A # r"
    using DISCLAIMER_head by blast
  have p: "startswith (gen_pypy_decl (declarations ag) @ NL) ''HPyContextS = rffi.CStruct(''"
    unfolding d by (simp add: startswith_def)
  have n: "\<not> startswith (gen_pypy_decl (declarations ag) @ NL) DISCLAIMER"
    unfolding d r by (simp add: startswith_def)
  show ?thesis
    unfolding f using p n outputs_distinct by (simp add: startswith_append)
qed

text \<open>The run on \<^verbatim>\<open>source_A\<close>.\<close>

lemma sample_main:
  "main sample_parse render (sample_files source_A) =
     ((sample_files source_A)
        (autogen_ctx \<mapsto> DISCLAIMER @ NL @ (''struct _HPyContext_s {\<newline>    int ctx_version;\<newline>    HPy ('' @ ''*ctx_Thing_Create)(HPyContext ctx, long size);\<newline>    HPy h_None;\<newline>};'') @ NL,
         autogen_func \<mapsto> DISCLAIMER @ NL @ ''static inline HPy HPyThing_Create(HPyContext ctx, long size) {\<newline>     return ctx->ctx_Thing_Create ( ctx, size ); \<newline>}\<newline>'' @ NL,
         autogen_ctx_def \<mapsto> DISCLAIMER @ NL @ gen_ctx_def sample_entries @ NL,
         autogen_pypy \<mapsto> gen_pypy_decl sample_entries @ NL), None)"
proof -
  have s: "sample_files source_A public_api = Some source_A"
    by (simp add: sample_files_def)
  have i: "AutoGen_init sample_parse render source_A =
      Inr \<lparr>declarations = sample_entries, warnings = []\<rparr>"
    using collect_sample by (simp add: AutoGen_init_def sample_parse_def)
  show ?thesis
    using main_success [where files = "sample_files source_A", OF s i] sample_ctx_decl sample_trampolines
    by simp
qed

text \<open>Claim C8, witness: the run on \<^verbatim>\<open>source_A\<close> writes its files.\<close>

theorem C8_notice_witness:
  "snd (main sample_parse render (sample_files source_A)) = None
   \<and> (\<exists>a. fst (main sample_parse render (sample_files source_A)) autogen_ctx = Some a
          \<and> startswith a DISCLAIMER)
   \<and> (\<exists>d. fst (main sample_parse render (sample_files source_A)) autogen_pypy = Some d
          \<and> \<not> startswith d DISCLAIMER)"
proof -
  have "main sample_parse render (sample_files source_A) =
      (fst (main sample_parse render (sample_files source_A)), None)"
    using sample_main by simp
  from C8_notice [OF this] show ?thesis
    using sample_main by simp
qed

text \<open>
  Claim C8, counterexample for the fourth file: after the run on \<^verbatim>\<open>source_A\<close> the
  foreign descriptor is the text of \<^verbatim>\<open>gen_pypy_decl\<close> and a newline, and it does not
  begin with the notice.
\<close>

theorem C8_counterexample:
  "snd (main sample_parse render (sample_files source_A)) = None
   \<and> fst (main sample_parse render (sample_files source_A)) autogen_pypy
       = Some (gen_pypy_decl sample_entries @ NL)
   \<and> take 27 (gen_pypy_decl sample_entries @ NL) = ''HPyContextS = rffi.CStruct(''
   \<and> \<not> startswith (gen_pypy_decl sample_entries @ NL) DISCLAIMER"
proof -
  obtain r where r: "DISCLAIMER = CHR 0x0A # r"
    using DISCLAIMER_head by blast
  obtain d where d: "gen_pypy_decl sample_entries = ''HPyContextS = rffi.CStruct('' @ d"
    using gen_pypy_decl_head by blast
  have t: "take 27 (gen_pypy_decl sample_entries @ NL) = ''HPyContextS = rffi.CStruct(''"
    unfolding d by simp
  have n: "\<not> startswith (gen_pypy_decl sample_entries @ NL) DISCLAIMER"
    unfolding d r by (simp add: startswith_def)
  show ?thesis using sample_main t n by simp
qed

section \<open>Regeneration\<close>

text \<open>
  Claim C9. A run reads nothing but the declaration source: two runs from file systems
  that agree on it end the same way and, when they write, write the same four texts,
  whatever the output files held before; a run that raises leaves the files as they
  were. Running again on the files a run left behind changes nothing. The model has no
  state between runs, as the program has none: every object is built in \<^verbatim>\<open>main\<close>.
\<close>

theorem C9_regeneration:
  assumes "files1 public_api = files2 public_api"
  shows "snd (main parse toC files1) = snd (main parse toC files2)
       \<and> (snd (main parse toC files1) = None \<longrightarrow>
            map (fst (main parse toC files1)) outputs = map (fst (main parse toC files2)) outputs)
       \<and> (snd (main parse toC files1) \<noteq> None \<longrightarrow> fst (main parse toC files1) = files1)
       \<and> main parse toC (fst (main parse toC files1)) = main parse toC files1"
proof (cases rule: main_result [of parse toC files1])
  case (failed e)
  from failed(2) [of files2] assms failed(1) show ?thesis by simp
next
  case (written src ag a b)
  have w2: "files2 public_api = Some src" using written(1) assms by simp
  note m1 = main_success [where files = files1, OF written]
  note m2 = main_success [where files = files2, OF w2 written(2-4)]
  have again: "fst (main parse toC files1) public_api = Some src"
    unfolding m1 using written(1) outputs_distinct by simp
  note m3 = main_success [where files = "fst (main parse toC files1)", OF again written(2-4)]
  have idem: "main parse toC (fst (main parse toC files1)) = main parse toC files1"
    unfolding m3 unfolding m1 by (auto simp: fun_eq_iff)
  show ?thesis
    using idem unfolding m1 m2 using outputs_distinct by (simp add: outputs_def)
qed

text \<open>
  Claim C9, witness: the run on \<^verbatim>\<open>source_A\<close>, from a clean checkout and from one
  with a stale type declaration.
\<close>

theorem C9_regeneration_witness:
  "sample_files source_A public_api = ((sample_files source_A)(autogen_ctx \<mapsto> ''stale'')) public_api
   \<and> snd (main sample_parse render (sample_files source_A)) = None
   \<and> snd (main sample_parse render ((sample_files source_A)(autogen_ctx \<mapsto> ''stale''))) = None
   \<and> map (fst (main sample_parse render (sample_files source_A))) outputs
       = map (fst (main sample_parse render ((sample_files source_A)(autogen_ctx \<mapsto> ''stale'')))) outputs
   \<and> main sample_parse render (fst (main sample_parse render (sample_files source_A)))
       = main sample_parse render (sample_files source_A)"
proof -
  have h: "sample_files source_A public_api
             = ((sample_files source_A)(autogen_ctx \<mapsto> ''stale'')) public_api"
    using outputs_distinct by simp
  have n: "snd (main sample_parse render (sample_files source_A)) = None"
    using sample_main by simp
  from C9_regeneration [where ?files1.0 = "sample_files source_A"
      and ?files2.0 = "(sample_files source_A)(autogen_ctx \<mapsto> ''stale'')"
      and parse = sample_parse and toC = render, OF h] n h
  show ?thesis
    by simp
qed

section \<open>Malformed declarations\<close>







section \<open>Colliding slot names\<close>

text \<open>The run on \<^verbatim>\<open>source_B\<close>, two functions whose names give the same slot name.\<close>

lemma sample_B:
  "AutoGen_init sample_parse render source_B =
     Inr \<lparr>declarations = [Function ''HPy_Foo'' Foo, Function ''_HPy_Foo'' Foo_private],
          warnings = []\<rparr>"
  by (simp add: sample_parse_def source_A_def source_B_def sample_defs method_defs visitor_defs)

text \<open>The slot name of an accepted function starts with \<^verbatim>\<open>ctx_\<close>, that of a constant with \<^verbatim>\<open>h_\<close>.\<close>

lemma accepted_slot_disjoint:
  assumes "accepted toC e1" "accepted toC e2" "is_Function e1" "\<not> is_Function e2"
  shows "ctx_name e1 \<noteq> ctx_name e2"
proof -
  from assms(1,3) obtain n1 m1 where e1: "e1 = Function n1 m1"
    and p: "startswith n1 ''HPy'' \<or> startswith n1 ''_HPy''"
    by (cases e1) auto
  from assms(2,4) obtain n2 m2 where e2: "e2 = GlobalVar n2 m2" and h: "startswith n2 ''h_''"
    by (cases e2) auto
  from p have "ctx_name e1 = spec_slot_name n1"
    unfolding e1 by (simp add: CTX_NAME_sub_spec)
  then obtain r where r: "ctx_name e1 = ''ctx_'' @ r"
    by (simp add: spec_slot_name_def)
  from startswith_split [OF h] obtain r2 where "n2 = ''h_'' @ r2" by auto
  with r e2 show ?thesis by simp
qed

text \<open>
  Claim C2, amended. The generator does not check the slot names for collisions.
  Every run in which classification and the generators succeed writes all four files,
  whether or not two accepted names give the same slot name. What the naming rule
  itself guarantees is that the slot name of a callable is never the slot name of a
  constant.
\<close>

theorem C2_no_collision_check:
  assumes "files public_api = Some src"
    and "AutoGen_init parse toC src = Inr ag"
    and "gen_ctx_decl toC (declarations ag) = Inr a"
    and "gen_func_trampolines toC (declarations ag) = Inr b"
  shows "snd (main parse toC files) = None
       \<and> map (fst (main parse toC files)) outputs =
           [Some (DISCLAIMER @ NL @ a @ NL), Some (DISCLAIMER @ NL @ b @ NL),
            Some (DISCLAIMER @ NL @ gen_ctx_def (declarations ag) @ NL),
            Some (gen_pypy_decl (declarations ag) @ NL)]
       \<and> (\<forall>e1 \<in> set (declarations ag). \<forall>e2 \<in> set (declarations ag).
             is_Function e1 \<and> \<not> is_Function e2 \<longrightarrow> ctx_name e1 \<noteq> ctx_name e2)"
proof -
  from assms(2) obtain tree where "collect_declarations toC tree = Inr ag"
    by (auto simp: AutoGen_init_def split: sum.splits)
  then have "list_all (accepted toC) (declarations ag)"
    using visit_accepted(1) [of toC tree "\<lparr>declarations = [], warnings = []\<rparr>"]
    by (simp add: collect_declarations_def)
  then have acc: "\<And>e. e \<in> set (declarations ag) \<Longrightarrow> accepted toC e"
    by (simp add: list_all_iff)
  have "\<forall>e1 \<in> set (declarations ag). \<forall>e2 \<in> set (declarations ag).
             is_Function e1 \<and> \<not> is_Function e2 \<longrightarrow> ctx_name e1 \<noteq> ctx_name e2"
  proof (intro ballI impI)
    fix e1 e2
    assume m: "e1 \<in> set (declarations ag)" "e2 \<in> set (declarations ag)"
      and f: "is_Function e1 \<and> \<not> is_Function e2"
    from accepted_slot_disjoint [OF acc [OF m(1)] acc [OF m(2)]] f
    show "ctx_name e1 \<noteq> ctx_name e2" by blast
  qed
  then show ?thesis
    using main_success [where files = files, OF assms] outputs_distinct
    by (simp add: outputs_def)
qed

text \<open>Claim C2, witness: the run on \<^verbatim>\<open>source_A\<close>.\<close>

theorem C2_no_collision_check_witness:
  "sample_files source_A public_api = Some source_A
   \<and> AutoGen_init sample_parse render source_A = Inr \<lparr>declarations = sample_entries, warnings = []\<rparr>
   \<and> snd (main sample_parse render (sample_files source_A)) = None
   \<and> map (fst (main sample_parse render (sample_files source_A))) outputs =
       [Some (DISCLAIMER @ NL @ (''struct _HPyContext_s {\<newline>    int ctx_version;\<newline>    HPy ('' @ ''*ctx_Thing_Create)(HPyContext ctx, long size);\<newline>    HPy h_None;\<newline>};'') @ NL),
        Some (DISCLAIMER @ NL @ ''static inline HPy HPyThing_Create(HPyContext ctx, long size) {\<newline>     return ctx->ctx_Thing_Create ( ctx, size ); \<newline>}\<newline>'' @ NL),
        Some (DISCLAIMER @ NL @ gen_ctx_def sample_entries @ NL),
        Some (gen_pypy_decl sample_entries @ NL)]
   \<and> ctx_name (Function ''HPyThing_Create'' Thing_Create) \<noteq> ctx_name (GlobalVar ''h_None'' h_None)"
proof -
  have s: "sample_files source_A public_api = Some source_A"
    by (simp add: sample_files_def)
  have i: "AutoGen_init sample_parse render source_A =
      Inr \<lparr>declarations = sample_entries, warnings = []\<rparr>"
    using collect_sample by (simp add: AutoGen_init_def sample_parse_def)
  have a: "gen_ctx_decl render (declarations \<lparr>declarations = sample_entries, warnings = []\<rparr>) =
     Inr (''struct _HPyContext_s {\<newline>    int ctx_version;\<newline>    HPy ('' @ ''*ctx_Thing_Create)(HPyContext ctx, long size);\<newline>    HPy h_None;\<newline>};'')"
    using sample_ctx_decl by simp
  have b: "gen_func_trampolines render (declarations \<lparr>declarations = sample_entries, warnings = []\<rparr>) =
     Inr ''static inline HPy HPyThing_Create(HPyContext ctx, long size) {\<newline>     return ctx->ctx_Thing_Create ( ctx, size ); \<newline>}\<newline>''"
    using sample_trampolines by simp
  from C2_no_collision_check [where files = "sample_files source_A", OF s i a b] s i
  show ?thesis by (simp add: sample_entries_def)
qed

text \<open>The type declaration and the trampolines for \<^verbatim>\<open>source_B\<close>.\<close>

lemma sample_B_ctx_decl:
  "gen_ctx_decl render [Function ''HPy_Foo'' Foo, Function ''_HPy_Foo'' Foo_private] =
     Inr (''struct _HPyContext_s {\<newline>    int ctx_version;\<newline>    HPy ('' @ ''*ctx_Foo)(HPyContext ctx);\<newline>    HPy ('' @ ''*ctx_Foo)(HPyContext ctx);\<newline>};'')"
  by (simp add: sample_defs method_defs gen_defs)

lemma sample_B_trampolines:
  "gen_func_trampolines render [Function ''HPy_Foo'' Foo, Function ''_HPy_Foo'' Foo_private] =
     Inr ''static inline HPy HPy_Foo(HPyContext ctx) {\<newline>     return ctx->ctx_Foo ( ctx ); \<newline>}\<newline>\<newline>static inline HPy _HPy_Foo(HPyContext ctx) {\<newline>     return ctx->ctx_Foo ( ctx ); \<newline>}\<newline>''"
  by (simp add: sample_defs method_defs gen_defs)

text \<open>
  Claim C2, counterexample: \<^verbatim>\<open>HPy_Foo\<close> and \<^verbatim>\<open>_HPy_Foo\<close> are both accepted and both
  named \<^verbatim>\<open>ctx_Foo\<close>; the run does not abort, and the four files are written with the
  field \<^verbatim>\<open>ctx_Foo\<close> twice.
\<close>

theorem C2_counterexample:
  "''HPy_Foo'' \<noteq> ''_HPy_Foo''
   \<and> ctx_name (Function ''HPy_Foo'' Foo) = ''ctx_Foo''
   \<and> ctx_name (Function ''_HPy_Foo'' Foo_private) = ''ctx_Foo''
   \<and> AutoGen_init sample_parse render source_B =
       Inr \<lparr>declarations = [Function ''HPy_Foo'' Foo, Function ''_HPy_Foo'' Foo_private],
            warnings = []\<rparr>
   \<and> snd (main sample_parse render (sample_files source_B)) = None
   \<and> fst (main sample_parse render (sample_files source_B)) autogen_ctx =
       Some (DISCLAIMER @ NL @ (''struct _HPyContext_s {\<newline>    int ctx_version;\<newline>    HPy ('' @ ''*ctx_Foo)(HPyContext ctx);\<newline>    HPy ('' @ ''*ctx_Foo)(HPyContext ctx);\<newline>};'') @ NL)
   \<and> fst (main sample_parse render (sample_files source_B)) autogen_ctx_def =
       Some (DISCLAIMER @ NL @ ''struct _HPyContext_s global_ctx = {\<newline>    .ctx_version = 1,\<newline>    .ctx_Foo = &ctx_Foo,\<newline>    .ctx_Foo = &ctx_Foo,\<newline>};'' @ NL)
   \<and> fst (main sample_parse render (sample_files source_B)) autogen_func \<noteq> None
   \<and> fst (main sample_parse render (sample_files source_B)) autogen_pypy \<noteq> None"
proof -
  have s: "sample_files source_B public_api = Some source_B"
    by (simp add: sample_files_def)
  have a: "gen_ctx_decl render
      (declarations \<lparr>declarations = [Function ''HPy_Foo'' Foo, Function ''_HPy_Foo'' Foo_private],
                     warnings = []\<rparr>) =
     Inr (''struct _HPyContext_s {\<newline>    int ctx_version;\<newline>    HPy ('' @ ''*ctx_Foo)(HPyContext ctx);\<newline>    HPy ('' @ ''*ctx_Foo)(HPyContext ctx);\<newline>};'')"
    using sample_B_ctx_decl by simp
  have b: "gen_func_trampolines render
      (declarations \<lparr>declarations = [Function ''HPy_Foo'' Foo, Function ''_HPy_Foo'' Foo_private],
                     warnings = []\<rparr>) =
     Inr ''static inline HPy HPy_Foo(HPyContext ctx) {\<newline>     return ctx->ctx_Foo ( ctx ); \<newline>}\<newline>\<newline>static inline HPy _HPy_Foo(HPyContext ctx) {\<newline>     return ctx->ctx_Foo ( ctx ); \<newline>}\<newline>''"
    using sample_B_trampolines by simp
  have d: "gen_ctx_def [Function ''HPy_Foo'' Foo, Function ''_HPy_Foo'' Foo_private] =
     ''struct _HPyContext_s global_ctx = {\<newline>    .ctx_version = 1,\<newline>    .ctx_Foo = &ctx_Foo,\<newline>    .ctx_Foo = &ctx_Foo,\<newline>};''"
    by (simp add: method_defs gen_defs)
  have n: "ctx_name (Function ''HPy_Foo'' Foo) = ''ctx_Foo''"
    "ctx_name (Function ''_HPy_Foo'' Foo_private) = ''ctx_Foo''"
    by (simp_all add: method_defs)
  from main_success [where files = "sample_files source_B", OF s sample_B a b] sample_B d n
    outputs_distinct
  show ?thesis by simp
qed

section \<open>Variadic functions\<close>

text \<open>Reading the parameters and their names.\<close>

lemma node_params_shape:
  assumes "node_params n = Inr ps"
  obtains r where "attr_type n = Inr (FuncDecl (Some ps) r)"
proof -
  from assms obtain t where t: "attr_type n = Inr t" and a: "attr_args_params t = Inr ps"
    by (auto simp: node_params_def split: sum.splits)
  from a obtain r where "t = FuncDecl (Some ps) r"
    by (cases t rule: attr_args_params.cases) auto
  with t that show ?thesis by blast
qed

lemma param_names_append:
  "param_names xs = Inr a \<Longrightarrow> param_names ys = Inr b \<Longrightarrow> param_names (xs @ ys) = Inr (a @ b)"
  by (induction xs arbitrary: a) (auto split: sum.splits)

lemma param_names_length: "param_names ps = Inr nms \<Longrightarrow> length nms = length ps"
  by (induction ps arbitrary: nms) (auto split: sum.splits)

lemma param_names_last:
  "param_names ps = Inr nms \<Longrightarrow> ps \<noteq> [] \<Longrightarrow> attr_name (last ps) = Inr (last nms)"
proof (induction ps arbitrary: nms)
  case Nil
  then show ?case by simp
next
  case (Cons p ps)
  then obtain nm rest where nm: "attr_name p = Inr nm" and rest: "param_names ps = Inr rest"
    and nms: "nms = nm # rest"
    by (auto split: sum.splits)
  show ?case
  proof (cases "ps = []")
    case True
    with nm rest nms show ?thesis by simp
  next
    case False
    with param_names_length [OF rest] have "rest \<noteq> []" by auto
    with Cons.IH [OF rest False] False nms show ?thesis by simp
  qed
qed

lemma py_index_before_last:
  assumes "fixed \<noteq> []"
  shows "py_index (fixed @ [x]) (- 2) = Inr (last fixed)"
proof -
  from assms obtain y ys where f: "fixed = y # ys" by (cases fixed) auto
  have i: "nat (int (length (fixed @ [x])) + - 2) = length fixed - 1"
    unfolding f by simp
  have "length fixed - 1 < length fixed" unfolding f by simp
  then have e: "(fixed @ [x]) ! (length fixed - 1) = last fixed"
    using assms by (simp add: nth_append last_conv_nth)
  have c: "- int (length (fixed @ [x])) \<le> - 2" unfolding f by simp
  have "py_index (fixed @ [x]) (- 2) = Inr ((fixed @ [x]) ! nat (int (length (fixed @ [x])) + - 2))"
    unfolding py_index_def using c by simp
  with i e show ?thesis by simp
qed

lemma those_map_Some: "those (map Some xs) = Some xs"
  by (induction xs) simp_all

lemma join_names_Some: "join_names (map Some xs) = Inr (join '', '' xs)"
  by (simp add: join_names_def those_map_Some)

text \<open>
  Claim C1. For a callable whose parameters are N fixed named parameters (N at least 1,
  so that there is a last named parameter) followed by the ellipsis, the trampoline is
  the text below: after the signature it declares \<^verbatim>\<open>_vl\<close> and starts the capture with
  \<^verbatim>\<open>va_start\<close> on the name of the last fixed parameter, calls the slot with the N
  names in order followed by \<^verbatim>\<open>_vl\<close> (N + 1 arguments), ends the capture with
  \<^verbatim>\<open>va_end\<close> on its single path, and then returns the result it kept in \<^verbatim>\<open>_res\<close>;
  when the return type is \<^verbatim>\<open>void\<close> the call is a bare statement and nothing is
  returned.
\<close>

theorem C1_variadic_trampoline:
  assumes "node_params n = Inr (fixed @ [EllipsisParam])"
    and "fixed \<noteq> []"
    and "param_names fixed = Inr (map Some nms)"
  shows "\<exists>rettype.
      toC_type_type toC n = Inr rettype
    \<and> trampoline_def toC (Function name n) =
        Inr (Some (join '' ''
          ([''static inline'', toC n, ''{'' @ NL @ ''    '',
            ''va_list _vl;'',
            ''va_start(_vl, '' @ last nms @ '');'',
            (if rettype = ''void'' then ''ctx->'' @ CTX_NAME_sub name
             else rettype @ '' _res = ctx->'' @ CTX_NAME_sub name),
            ''('', join '', '' (nms @ [''_vl'']), '');'',
            ''va_end(_vl);'']
           @ (if rettype = ''void'' then [] else [''return _res;''])
           @ [NL @ ''}''])))
    \<and> length (nms @ [''_vl'']) = length fixed + 1"
proof -
  from node_params_shape [OF assms(1)] obtain r where
    t: "attr_type n = Inr (FuncDecl (Some (fixed @ [EllipsisParam])) r)" .
  have rt: "toC_type_type toC n = Inr (toC r)"
    using t by (simp add: toC_type_type_def)
  have va: "is_varargs n = Inr True"
    using assms(1) by (simp add: is_varargs_def)
  have len: "length nms = length fixed"
    using param_names_length [OF assms(3)] by simp
  with assms(2) have nne: "nms \<noteq> []" by auto
  have lp: "attr_name (last fixed) = Inr (Some (last nms))"
    using param_names_last [OF assms(3) assms(2)] nne by (simp add: last_map)
  have jn: "join_names (map Some nms @ [Some ''_vl'']) = Inr (join '', '' (nms @ [''_vl'']))"
    using join_names_Some [of "nms @ [''_vl'']"] by simp
  have body: "varargs_call_parts (toC r) (CTX_NAME_sub name) (fixed @ [EllipsisParam]) =
      Inr ([''va_list _vl;'',
            ''va_start(_vl, '' @ last nms @ '');'',
            (if toC r = ''void'' then ''ctx->'' @ CTX_NAME_sub name
             else toC r @ '' _res = ctx->'' @ CTX_NAME_sub name),
            ''('', join '', '' (nms @ [''_vl'']), '');'',
            ''va_end(_vl);'']
           @ (if toC r = ''void'' then [] else [''return _res;'']))"
    using py_index_before_last [OF assms(2), of EllipsisParam] lp assms(3) jn
    by (simp add: varargs_call_parts_def py_str_def)
  have "trampoline_parts toC name n =
      Inr ([''static inline'', toC n, ''{'' @ NL @ ''    '',
            ''va_list _vl;'',
            ''va_start(_vl, '' @ last nms @ '');'',
            (if toC r = ''void'' then ''ctx->'' @ CTX_NAME_sub name
             else toC r @ '' _res = ctx->'' @ CTX_NAME_sub name),
            ''('', join '', '' (nms @ [''_vl'']), '');'',
            ''va_end(_vl);'']
           @ (if toC r = ''void'' then [] else [''return _res;''])
           @ [NL @ ''}''])"
    using rt va assms(1) body by (simp add: trampoline_parts_def)
  then have "trampoline_def toC (Function name n) =
        Inr (Some (join '' ''
          ([''static inline'', toC n, ''{'' @ NL @ ''    '',
            ''va_list _vl;'',
            ''va_start(_vl, '' @ last nms @ '');'',
            (if toC r = ''void'' then ''ctx->'' @ CTX_NAME_sub name
             else toC r @ '' _res = ctx->'' @ CTX_NAME_sub name),
            ''('', join '', '' (nms @ [''_vl'']), '');'',
            ''va_end(_vl);'']
           @ (if toC r = ''void'' then [] else [''return _res;''])
           @ [NL @ ''}''])))"
    by simp
  with rt len show ?thesis by simp
qed

text \<open>Claim C1, witness: \<^verbatim>\<open>HPyErr_Format(ctx, fmt, ...)\<close>.\<close>

theorem C1_variadic_trampoline_witness:
  "node_params Err_Format =
     Inr ([var_decl ''HPyContext'' ''ctx'',
           Decl (Some ''fmt'') [] [] []
             (PtrDecl [] (TypeDecl (Some ''fmt'') [''const''] (IdentifierType [''char''])))
             None None] @ [EllipsisParam])
   \<and> param_names [var_decl ''HPyContext'' ''ctx'',
           Decl (Some ''fmt'') [] [] []
             (PtrDecl [] (TypeDecl (Some ''fmt'') [''const''] (IdentifierType [''char''])))
             None None] = Inr (map Some [''ctx'', ''fmt''])
   \<and> toC_type_type render Err_Format = Inr ''HPy''
   \<and> trampoline_def render (Function ''HPyErr_Format'' Err_Format) =
       Inr (Some ''static inline HPy HPyErr_Format(HPyContext ctx, const char *fmt, ...) {\<newline>     va_list _vl; va_start(_vl, fmt); HPy _res = ctx->ctx_Err_Format ( ctx, fmt, _vl ); va_end(_vl); return _res; \<newline>}'')"
proof -
  let ?fixed = "[var_decl ''HPyContext'' ''ctx'',
           Decl (Some ''fmt'') [] [] []
             (PtrDecl [] (TypeDecl (Some ''fmt'') [''const''] (IdentifierType [''char''])))
             None None]"
  have a: "node_params Err_Format = Inr (?fixed @ [EllipsisParam])"
    by (simp add: sample_defs node_params_def)
  have b: "?fixed \<noteq> []" by simp
  have c: "param_names ?fixed = Inr (map Some [''ctx'', ''fmt''])"
    by (simp add: sample_defs)
  have r: "toC_type_type render Err_Format = Inr ''HPy''"
    by (simp add: sample_defs method_defs)
  from C1_variadic_trampoline [where toC = render and name = "''HPyErr_Format''", OF a b c] r
  have "trampoline_def render (Function ''HPyErr_Format'' Err_Format) =
       Inr (Some ''static inline HPy HPyErr_Format(HPyContext ctx, const char *fmt, ...) {\<newline>     va_list _vl; va_start(_vl, fmt); HPy _res = ctx->ctx_Err_Format ( ctx, fmt, _vl ); va_end(_vl); return _res; \<newline>}'')"
    by (simp add: sample_defs method_defs)
  with a c r show ?thesis by simp
qed

text \<open>Renaming the declarator keeps it where \<^verbatim>\<open>_find_typedecl\<close> finds it.\<close>

lemma find_typedecl_set_declname:
  "find_typedecl r = Inr (TypeDecl dn tq ty) \<Longrightarrow>
     find_typedecl (set_declname s r) = Inr (TypeDecl (Some s) tq ty)"
  by (induction r rule: find_typedecl.induct) simp_all

text \<open>
  Claim C3, amended. For a variadic function declaration whose fixed parameters are not
  themselves the ellipsis and whose return type ends in a declarator, the field of the
  type declaration is the text of the declaration rewritten as a pointer to the
  function, named by the slot name, in which the trailing ellipsis is replaced by the
  single parameter \<^verbatim>\<open>va_list _vl\<close>: the parameter list of the slot itself holds no
  ellipsis and is as long as the original one. The fixed parameters and the return type
  are handed to the C generator as they are, so an ellipsis inside the type of a
  parameter or inside the return type stays in the text. The trampoline is printed from
  the entry's own node, whose parameter list still ends in the ellipsis.
\<close>

theorem C3_variadic_slot_type:
  assumes "n = Decl nm q st fs (FuncDecl (Some (fixed @ [EllipsisParam])) r) i b"
    and "EllipsisParam \<notin> set fixed"
    and "find_typedecl r = Inr (TypeDecl dn tq ty)"
  shows "ctx_decl toC (Function name n) =
      Inr (toC (Decl nm q st fs
                  (PtrDecl [] (FuncDecl (Some (fixed @ [vl_arg]))
                                 (set_declname (CTX_NAME_sub name) r))) i b))
    \<and> find_typedecl (set_declname (CTX_NAME_sub name) r) = Inr (TypeDecl (Some (CTX_NAME_sub name)) tq ty)
    \<and> EllipsisParam \<notin> set (fixed @ [vl_arg])
    \<and> length (fixed @ [vl_arg]) = length (fixed @ [EllipsisParam])
    \<and> (\<forall>parts. trampoline_parts toC name n = Inr parts \<longrightarrow>
          take 2 parts = [''static inline'', toC n])
    \<and> node_params n = Inr (fixed @ [EllipsisParam])"
proof -
  have np: "node_params n = Inr (fixed @ [EllipsisParam])"
    unfolding assms(1) by (simp add: node_params_def)
  have va: "is_varargs n = Inr True"
    using np by (simp add: is_varargs_def)
  have "ctx_decl_node name n =
      Inr (Decl nm q st fs
             (PtrDecl [] (FuncDecl (Some (fixed @ [vl_arg]))
                            (set_declname (CTX_NAME_sub name) r))) i b)"
    unfolding ctx_decl_node_def using va assms(3) unfolding assms(1) by simp
  then have a: "ctx_decl toC (Function name n) =
      Inr (toC (Decl nm q st fs
                  (PtrDecl [] (FuncDecl (Some (fixed @ [vl_arg]))
                                 (set_declname (CTX_NAME_sub name) r))) i b))"
    by simp
  have b: "EllipsisParam \<notin> set (fixed @ [vl_arg])"
    using assms(2) by (simp add: vl_arg_def)
  have c: "\<forall>parts. trampoline_parts toC name n = Inr parts \<longrightarrow>
          take 2 parts = [''static inline'', toC n]"
    using trampoline_parts_head by fastforce
  from a b c np find_typedecl_set_declname [OF assms(3)] show ?thesis by simp
qed

text \<open>Claim C3, witness: the slot and the trampoline signature of \<^verbatim>\<open>HPyErr_Format\<close>.\<close>

theorem C3_variadic_slot_type_witness:
  "Err_Format = Decl (Some ''HPyErr_Format'') [] [] []
      (FuncDecl (Some ([var_decl ''HPyContext'' ''ctx'',
           Decl (Some ''fmt'') [] [] []
             (PtrDecl [] (TypeDecl (Some ''fmt'') [''const''] (IdentifierType [''char''])))
             None None] @ [EllipsisParam]))
         (TypeDecl (Some ''HPyErr_Format'') [] (IdentifierType [''HPy'']))) None None
   \<and> EllipsisParam \<notin> set [var_decl ''HPyContext'' ''ctx'',
           Decl (Some ''fmt'') [] [] []
             (PtrDecl [] (TypeDecl (Some ''fmt'') [''const''] (IdentifierType [''char''])))
             None None]
   \<and> find_typedecl (TypeDecl (Some ''HPyErr_Format'') [] (IdentifierType [''HPy'']))
       = Inr (TypeDecl (Some ''HPyErr_Format'') [] (IdentifierType [''HPy'']))
   \<and> ctx_decl render (Function ''HPyErr_Format'' Err_Format) =
       Inr (''HPy ('' @ ''*ctx_Err_Format)(HPyContext ctx, const char *fmt, va_list _vl)'')
   \<and> render Err_Format = ''HPy HPyErr_Format(HPyContext ctx, const char *fmt, ...)''
   \<and> (\<exists>rest. trampoline_parts render ''HPyErr_Format'' Err_Format =
          Inr (''static inline'' # ''HPy HPyErr_Format(HPyContext ctx, const char *fmt, ...)'' # rest))"
proof -
  let ?fixed = "[var_decl ''HPyContext'' ''ctx'',
           Decl (Some ''fmt'') [] [] []
             (PtrDecl [] (TypeDecl (Some ''fmt'') [''const''] (IdentifierType [''char''])))
             None None]"
  let ?r = "TypeDecl (Some ''HPyErr_Format'') [] (IdentifierType [''HPy''])"
  have a: "Err_Format = Decl (Some ''HPyErr_Format'') [] [] []
      (FuncDecl (Some (?fixed @ [EllipsisParam])) ?r) None None"
    by (simp add: sample_defs)
  have b: "EllipsisParam \<notin> set ?fixed"
    by (simp add: sample_defs)
  have c: "find_typedecl ?r = Inr ?r" by simp
  have d: "render Err_Format = ''HPy HPyErr_Format(HPyContext ctx, const char *fmt, ...)''"
    by (simp add: sample_defs method_defs)
  have e: "\<exists>rest. trampoline_parts render ''HPyErr_Format'' Err_Format =
          Inr (''static inline'' # ''HPy HPyErr_Format(HPyContext ctx, const char *fmt, ...)'' # rest)"
    by (simp add: sample_defs method_defs)
  from C3_variadic_slot_type [where toC = render and name = "''HPyErr_Format''", OF a b c]
  have "ctx_decl render (Function ''HPyErr_Format'' Err_Format) =
       Inr (''HPy ('' @ ''*ctx_Err_Format)(HPyContext ctx, const char *fmt, va_list _vl)'')"
    by (simp add: sample_defs method_defs)
  with a b c d e show ?thesis by blast
qed

text \<open>What a successful read of the parameter at index -2 tells.\<close>

lemma those_member: "those xs = Some ys \<Longrightarrow> x \<in> set xs \<Longrightarrow> \<exists>s. x = Some s"
  by (induction xs arbitrary: ys) (auto split: option.splits)

lemma py_index_Inr:
  "py_index ps (- 2) = Inr p \<Longrightarrow> 2 \<le> length ps \<and> p = last (butlast ps) \<and> butlast ps \<noteq> []"
proof -
  assume a: "py_index ps (- 2) = Inr p"
  then have l: "2 \<le> length ps"
    by (auto simp: py_index_def split: if_splits)
  then have ne: "butlast ps \<noteq> []"
    by (cases ps rule: rev_cases) auto
  from a l have "p = ps ! (length ps - 2)"
    by (auto simp: py_index_def nat_diff_distrib' split: if_splits)
  moreover have "last (butlast ps) = ps ! (length ps - 2)"
    using ne l by (simp add: last_conv_nth nth_butlast numeral_2_eq_2)
  ultimately show ?thesis using l ne by simp
qed

text \<open>
  Claim C10, amended. For a variadic callable whose parameter list is the ellipsis
  alone, the lookup of the parameter at index -2 is out of range for the one-element
  list and raises IndexError, so trampoline generation fails instead of producing a
  wrapper. Whenever the trampoline of a variadic callable is generated, the parameter
  list has at least two elements and the one before the ellipsis has a name: one or
  more named fixed parameters is a precondition of variadic trampoline generation.
\<close>

theorem C10_variadic_needs_fixed_parameter:
  "(node_params n = Inr [EllipsisParam] \<longrightarrow>
      trampoline_def toC (Function name n) = Inl IndexError)
   \<and> (is_varargs m = Inr True \<and> trampoline_def toC (Function name' m) = Inr t \<longrightarrow>
        (\<exists>ps p s. node_params m = Inr ps \<and> 2 \<le> length ps \<and> py_index ps (- 2) = Inr p
                 \<and> attr_name p = Inr (Some s)))"
proof (intro conjI impI)
  assume a: "node_params n = Inr [EllipsisParam]"
  from node_params_shape [OF a] obtain r where
    t: "attr_type n = Inr (FuncDecl (Some [EllipsisParam]) r)" .
  have "trampoline_parts toC name n = Inl IndexError"
    using t a by (simp add: trampoline_parts_def toC_type_type_def is_varargs_def
        varargs_call_parts_def py_index_def)
  then show "trampoline_def toC (Function name n) = Inl IndexError" by simp
next
  assume a: "is_varargs m = Inr True \<and> trampoline_def toC (Function name' m) = Inr t"
  then obtain ps where ps: "node_params m = Inr ps"
    by (auto simp: is_varargs_def split: sum.splits)
  from a obtain parts where "trampoline_parts toC name' m = Inr parts"
    by (auto split: sum.splits)
  with a ps obtain rt body where body: "varargs_call_parts rt (CTX_NAME_sub name') ps = Inr body"
    by (auto simp: trampoline_parts_def split: sum.splits)
  then obtain p last_param params joined where
    p: "py_index ps (- 2) = Inr p" and lp: "attr_name p = Inr last_param"
    and pn: "param_names (butlast ps) = Inr params"
    and j: "join_names (params @ [Some ''_vl'']) = Inr joined"
    by (auto simp: varargs_call_parts_def split: sum.splits)
  from py_index_Inr [OF p] have l: "2 \<le> length ps" and pl: "p = last (butlast ps)"
    and ne: "butlast ps \<noteq> []" by simp_all
  from param_names_last [OF pn ne] lp pl have e: "last_param = last params" by simp
  have "length params = length (butlast ps)" by (rule param_names_length [OF pn])
  with ne have "params \<noteq> []" by (metis length_0_conv)
  then have "last params \<in> set (params @ [Some ''_vl''])" by simp
  moreover from j obtain ss where "those (params @ [Some ''_vl'']) = Some ss"
    by (auto simp: join_names_def split: option.splits)
  ultimately obtain s where "last params = Some s"
    using those_member by blast
  with e lp have "attr_name p = Inr (Some s)" by simp
  with ps l p show "\<exists>ps p s. node_params m = Inr ps \<and> 2 \<le> length ps \<and> py_index ps (- 2) = Inr p
                 \<and> attr_name p = Inr (Some s)" by blast
qed

text \<open>
  Claim C10, witness: the ellipsis alone fails, and \<^verbatim>\<open>HPyErr_Format\<close>, with two
  fixed parameters, has a trampoline.
\<close>

theorem C10_variadic_needs_fixed_parameter_witness:
  "node_params Only_Ellipsis = Inr [EllipsisParam]
   \<and> trampoline_def render (Function ''HPy_Only'' Only_Ellipsis) = Inl IndexError
   \<and> is_varargs Err_Format = Inr True
   \<and> trampoline_def render (Function ''HPyErr_Format'' Err_Format) =
       Inr (Some ''static inline HPy HPyErr_Format(HPyContext ctx, const char *fmt, ...) {\<newline>     va_list _vl; va_start(_vl, fmt); HPy _res = ctx->ctx_Err_Format ( ctx, fmt, _vl ); va_end(_vl); return _res; \<newline>}'')
   \<and> (\<exists>ps p s. node_params Err_Format = Inr ps \<and> 2 \<le> length ps \<and> py_index ps (- 2) = Inr p
                 \<and> attr_name p = Inr (Some s))"
proof -
  have a: "node_params Only_Ellipsis = Inr [EllipsisParam]"
    by (simp add: sample_defs node_params_def)
  have b: "is_varargs Err_Format = Inr True"
    by (simp add: sample_defs method_defs)
  have c: "trampoline_def render (Function ''HPyErr_Format'' Err_Format) =
       Inr (Some ''static inline HPy HPyErr_Format(HPyContext ctx, const char *fmt, ...) {\<newline>     va_list _vl; va_start(_vl, fmt); HPy _res = ctx->ctx_Err_Format ( ctx, fmt, _vl ); va_end(_vl); return _res; \<newline>}'')"
    by (simp add: sample_defs method_defs)
  from C10_variadic_needs_fixed_parameter [where n = Only_Ellipsis and m = Err_Format
      and toC = render and name = "''HPy_Only''" and name' = "''HPyErr_Format''"] a b c
  show ?thesis by blast
qed

text \<open>
  Claim C10, counterexample to the reading of the ellipsis: on the accepted entry whose
  parameter list is the ellipsis alone, the element at index -2 is not the ellipsis,
  there is none; the generator ends with IndexError, not with the AttributeError that
  reading the name of an ellipsis gives.
\<close>

theorem C10_counterexample:
  "accepted render (Function ''HPy_Only'' Only_Ellipsis)
   \<and> node_params Only_Ellipsis = Inr [EllipsisParam]
   \<and> py_index [EllipsisParam] (- 2) \<noteq> Inr EllipsisParam
   \<and> py_index [EllipsisParam] (- 2) = Inl IndexError
   \<and> attr_name EllipsisParam = Inl AttributeError
   \<and> trampoline_def render (Function ''HPy_Only'' Only_Ellipsis) = Inl IndexError
   \<and> IndexError \<noteq> AttributeError"
  by (simp add: sample_defs method_defs)

section \<open>The order of the visitor\<close>

text \<open>\<^verbatim>\<open>visit_Decl\<close> appends at most one entry, for the declaration it is given.\<close>

lemma visit_Decl_appends:
  assumes "visit_Decl toC d v = Inr v'"
  shows "\<exists>es. declarations v' = declarations v @ es \<and> subseq (map entry_node es) [d]"
proof -
  from assms have "declarations v' = declarations v
      \<or> (\<exists>e. declarations v' = declarations v @ [e] \<and> entry_node e = d)"
    by (auto simp: visit_Decl_def visit_function_def visit_global_var_def
        split: sum.splits node.splits option.splits if_splits)
  then show ?thesis
  proof
    assume "declarations v' = declarations v"
    then have "declarations v' = declarations v @ [] \<and> subseq (map entry_node []) [d]" by simp
    then show ?thesis by blast
  next
    assume "\<exists>e. declarations v' = declarations v @ [e] \<and> entry_node e = d"
    then obtain e where "declarations v' = declarations v @ [e]" "entry_node e = d" by blast
    then have "declarations v' = declarations v @ [e] \<and> subseq (map entry_node [e]) [d]" by simp
    then show ?thesis by blast
  qed
qed

lemma visit_children_appends:
  "list_all is_Decl ds \<Longrightarrow> visit_children toC ds v = Inr v' \<Longrightarrow>
     \<exists>es. declarations v' = declarations v @ es \<and> subseq (map entry_node es) ds"
proof (induction ds arbitrary: v)
  case Nil
  then show ?case by simp
next
  case (Cons x xs)
  from Cons.prems(1) have dx: "is_Decl x" and dxs: "list_all is_Decl xs" by simp_all
  from dx have vx: "visit toC x v = visit_Decl toC x v" by (cases x) simp_all
  with Cons.prems(2) obtain v1 where v1: "visit_Decl toC x v = Inr v1"
    and rest: "visit_children toC xs v1 = Inr v'"
    by (auto split: sum.splits)
  from visit_Decl_appends [OF v1] obtain es1 where
    e1: "declarations v1 = declarations v @ es1" "subseq (map entry_node es1) [x]" by blast
  from Cons.IH [OF dxs rest] obtain es2 where
    e2: "declarations v' = declarations v1 @ es2" "subseq (map entry_node es2) xs" by blast
  from e1(2) e2(2) have "subseq (map entry_node es1 @ map entry_node es2) ([x] @ xs)"
    by (rule list_emb_append_mono)
  then have "subseq (map entry_node (es1 @ es2)) (x # xs)" by simp
  moreover have "declarations v' = declarations v @ (es1 @ es2)"
    using e1(1) e2(1) by simp
  ultimately show ?case by blast
qed

text \<open>
  The visitor keeps the order of the source: on a list of declarations, the nodes of
  the accepted entries are a subsequence of the list.
\<close>

theorem visitor_keeps_order:
  assumes "list_all is_Decl ds"
    and "collect_declarations toC (FileAST ds) = Inr v"
  shows "subseq (map entry_node (declarations v)) ds"
  using visit_children_appends [OF assms(1), of toC "\<lparr>declarations = [], warnings = []\<rparr>" v]
    assms(2)
  by (auto simp: collect_declarations_def)

text \<open>The order of the visitor on the two declarations of \<^verbatim>\<open>source_A\<close>.\<close>

theorem visitor_keeps_order_witness:
  "list_all is_Decl [Thing_Create, h_None]
   \<and> collect_declarations render (FileAST [Thing_Create, h_None]) =
       Inr \<lparr>declarations = sample_entries, warnings = []\<rparr>
   \<and> subseq (map entry_node sample_entries) [Thing_Create, h_None]"
proof -
  have a: "list_all is_Decl [Thing_Create, h_None]"
    by (simp add: sample_defs)
  from visitor_keeps_order [OF a collect_sample] a collect_sample show ?thesis by simp
qed

section \<open>An ellipsis inside a parameter type\<close>

text \<open>
  Claim C3, counterexample to a type declaration free of ellipses: \<^verbatim>\<open>HPy_Log\<close> is an
  accepted variadic function whose second parameter is a pointer to a variadic callback.
  Its trailing ellipsis becomes \<^verbatim>\<open>va_list _vl\<close>; the ellipsis of the callback is
  printed in the field of the type declaration.
\<close>

theorem C3_counterexample:
  "accepted render (Function ''HPy_Log'' Log)
   \<and> is_varargs Log = Inr True
   \<and> node_params Log = Inr ([var_decl ''HPyContext'' ''ctx'', Log_callback] @ [EllipsisParam])
   \<and> EllipsisParam \<notin> set [var_decl ''HPyContext'' ''ctx'', Log_callback]
   \<and> ctx_decl render (Function ''HPy_Log'' Log) =
       Inr (''HPy ('' @ ''*ctx_Log)(HPyContext ctx, int ('' @ ''*cb)(const char *fmt, ...), va_list _vl)'')
   \<and> sublist ''...''
        (''HPy ('' @ ''*ctx_Log)(HPyContext ctx, int ('' @ ''*cb)(const char *fmt, ...), va_list _vl)'')
   \<and> gen_ctx_decl render [Function ''HPy_Log'' Log] =
       Inr (''struct _HPyContext_s {\<newline>    int ctx_version;\<newline>    HPy ('' @ ''*ctx_Log)(HPyContext ctx, int ('' @ ''*cb)(const char *fmt, ...), va_list _vl);\<newline>};'')"
proof -
  have a: "accepted render (Function ''HPy_Log'' Log)"
    "is_varargs Log = Inr True"
    "node_params Log = Inr ([var_decl ''HPyContext'' ''ctx'', Log_callback] @ [EllipsisParam])"
    "EllipsisParam \<notin> set [var_decl ''HPyContext'' ''ctx'', Log_callback]"
    by (simp_all add: sample_defs method_defs hasattr_name_def)
  have c: "ctx_decl render (Function ''HPy_Log'' Log) =
       Inr (''HPy ('' @ ''*ctx_Log)(HPyContext ctx, int ('' @ ''*cb)(const char *fmt, ...), va_list _vl)'')"
    by (simp add: sample_defs method_defs)
  have "(''HPy ('' @ ''*ctx_Log)(HPyContext ctx, int ('' @ ''*cb)(const char *fmt, ...), va_list _vl)'')
      = (''HPy ('' @ ''*ctx_Log)(HPyContext ctx, int ('' @ ''*cb)(const char *fmt, '') @ ''...''
        @ ''), va_list _vl)''"
    by simp
  then have d: "sublist ''...''
        (''HPy ('' @ ''*ctx_Log)(HPyContext ctx, int ('' @ ''*cb)(const char *fmt, ...), va_list _vl)'')"
    unfolding sublist_def by blast
  have e: "gen_ctx_decl render [Function ''HPy_Log'' Log] =
       Inr (''struct _HPyContext_s {\<newline>    int ctx_version;\<newline>    HPy ('' @ ''*ctx_Log)(HPyContext ctx, int ('' @ ''*cb)(const char *fmt, ...), va_list _vl);\<newline>};'')"
    by (simp add: sample_defs method_defs gen_defs)
  from a c d e show ?thesis by blast
qed

end
